theory Spec2Isabelle
  imports Complex_Main "HOL-Library.Code_Target_Numeral"
begin

section \<open>Strings of the host language\<close>

text \<open>
  The script \<^verbatim>\<open>data-view-render.js\<close> works on JavaScript strings. A string is a
  sequence of UTF-16 code units, and it is modelled as the list of their values, natural
  numbers below \<open>2\<^sup>1\<^sup>6\<close>. The definitions are total on all lists of natural numbers.
  A character literal of the script is written \<open>ch CHR ''c''\<close> and a string literal
  \<open>str ''...''\<close>: the code unit of an ASCII character is its ASCII code.
\<close>

type_synonym code_unit = nat

type_synonym js_string = "code_unit list"

definition ch :: "char \<Rightarrow> code_unit" where
  "ch c = of_char c"

definition str :: "string \<Rightarrow> js_string" where
  "str s = map ch s"

definition TAB :: code_unit where
  "TAB = 0x09"

definition LF :: code_unit where
  "LF = 0x0A"

definition CR :: code_unit where
  "CR = 0x0D"

definition NBSP :: code_unit where
  "NBSP = 0xA0"

text \<open>
  The white space of the language: the code points \<^verbatim>\<open>WhiteSpace\<close> (TAB, VT, FF, the
  byte order mark U+FEFF and the space separators of Unicode: SPACE, the no-break space
  U+00A0, U+1680, U+2000 to U+200A, U+202F, U+205F and U+3000) and \<^verbatim>\<open>LineTerminator\<close>
  (LF, CR, U+2028 and U+2029). \<^verbatim>\<open>String.prototype.trim\<close>, the class \<^verbatim>\<open>\s\<close> of a regular
  expression and the white space of the numeric-string grammar all use this set. Every
  one of these code points is a single code unit.
\<close>

definition is_space :: "code_unit \<Rightarrow> bool" where
  "is_space c =
     (c \<in> {0x09, 0x0A, 0x0B, 0x0C, 0x0D, 0x20, 0xA0, 0x1680, 0x2028, 0x2029, 0x202F, 0x205F,
            0x3000, 0xFEFF}
      \<or> (0x2000 \<le> c \<and> c \<le> 0x200A))"

text \<open>\<^verbatim>\<open>s.trim()\<close>: white space removed from both ends.\<close>

definition trim :: "js_string \<Rightarrow> js_string" where
  "trim s = rev (dropWhile is_space (rev (dropWhile is_space s)))"

text \<open>
  The case mappings of Unicode on Latin-1, the code units below 256. Lowercase: the
  letters A to Z and the capital letters from U+00C0 to U+00DE, other than the
  multiplication sign U+00D7, move up by 32. Uppercase: the letters a to z and the small
  letters from U+00E0 to U+00FE, other than the division sign U+00F7, move down by 32;
  the micro sign U+00B5 becomes the Greek capital U+039C, the sharp s U+00DF becomes the
  two letters SS, and U+00FF becomes U+0178. No other code unit below 256 changes, and
  on this range no mapping depends on the neighbours of a character.
\<close>

definition latin1 :: "js_string \<Rightarrow> bool" where
  "latin1 s = list_all (\<lambda>c. c < 256) s"

definition lower_unit :: "code_unit \<Rightarrow> code_unit" where
  "lower_unit c =
     (if (0x41 \<le> c \<and> c \<le> 0x5A) \<or> (0xC0 \<le> c \<and> c \<le> 0xD6) \<or> (0xD8 \<le> c \<and> c \<le> 0xDE)
      then c + 0x20 else c)"

definition upper_unit :: "code_unit \<Rightarrow> js_string" where
  "upper_unit c =
     (if (0x61 \<le> c \<and> c \<le> 0x7A) \<or> (0xE0 \<le> c \<and> c \<le> 0xF6) \<or> (0xF8 \<le> c \<and> c \<le> 0xFE)
      then [c - 0x20]
      else if c = 0xB5 then [0x39C]
      else if c = 0xDF then [0x53, 0x53]
      else if c = 0xFF then [0x178]
      else [c])"

text \<open>
  \<^verbatim>\<open>s.replace(/c/g, "")\<close> for a one-character pattern: every occurrence of the
  character is deleted.
\<close>

definition remove_all :: "code_unit \<Rightarrow> js_string \<Rightarrow> js_string" where
  "remove_all c s = filter (\<lambda>x. x \<noteq> c) s"

text \<open>
  \<^verbatim>\<open>s.split(sep)\<close> for a one-character separator. The result is never empty: the empty
  string splits into one empty piece. A character other than the separator goes to the
  front of the first piece of what follows (the case of an empty list of pieces never
  arises).
\<close>

fun split_on :: "code_unit \<Rightarrow> js_string \<Rightarrow> js_string list" where
  "split_on sep [] = [[]]"
| "split_on sep (x # xs) =
     (if x = sep then [] # split_on sep xs
      else case split_on sep xs of
             [] \<Rightarrow> [[x]]
           | piece # pieces \<Rightarrow> (x # piece) # pieces)"

text \<open>
  \<^verbatim>\<open>text.split(/\r?\n/)\<close>: a line ends at LF, and a CR standing directly before that LF
  belongs to the separator. A CR anywhere else stays in its line.
\<close>

fun split_lines :: "js_string \<Rightarrow> js_string list" where
  "split_lines [] = [[]]"
| "split_lines [x] = (if x = LF then [[], []] else [[x]])"
| "split_lines (x # y # zs) =
     (if x = CR \<and> y = LF then [] # split_lines zs
      else if x = LF then [] # split_lines (y # zs)
      else case split_lines (y # zs) of
             [] \<Rightarrow> [[x]]
           | piece # pieces \<Rightarrow> (x # piece) # pieces)"

text \<open>
  The four extractors of \<^verbatim>\<open>parseRow\<close> are regular expressions of one shape:
  \<^verbatim>\<open>/\[([^\]]+)\]/\<close>, \<^verbatim>\<open>/\(([^)]+)\)/\<close>, \<^verbatim>\<open>/\{([^}]+)\}/\<close> and \<^verbatim>\<open>/%([^%]+)%/\<close>:
  an opening character, one or more characters other than the closing one, and the
  closing character. \<^verbatim>\<open>s.match(re)\<close> returns the leftmost match. At a start position the
  greedy class takes the whole run up to the next closing character; a shorter run is
  followed by a character of the run and cannot be closed, so backtracking finds nothing
  more, and the search moves on to the next position. \<open>None\<close> is the \<^verbatim>\<open>null\<close> of a
  failed match, \<open>Some g\<close> carries capture group 1.
\<close>

fun regex_group :: "code_unit \<Rightarrow> code_unit \<Rightarrow> js_string \<Rightarrow> js_string option" where
  "regex_group l r [] = None"
| "regex_group l r (c # cs) =
     (if c = l \<and> takeWhile (\<lambda>x. x \<noteq> r) cs \<noteq> [] \<and> dropWhile (\<lambda>x. x \<noteq> r) cs \<noteq> []
      then Some (takeWhile (\<lambda>x. x \<noteq> r) cs)
      else regex_group l r cs)"

text \<open>\<^verbatim>\<open>(s.match(re) || [null, ""])[1]\<close>: group 1, or the empty string without a match.\<close>

definition group_or_empty :: "code_unit \<Rightarrow> code_unit \<Rightarrow> js_string \<Rightarrow> js_string" where
  "group_or_empty l r s = (case regex_group l r s of None \<Rightarrow> [] | Some g \<Rightarrow> g)"

text \<open>\<^verbatim>\<open>/^\s*\[/.test(s)\<close>: white space from the start of the string, then a bracket.\<close>

definition starts_with_bracket :: "js_string \<Rightarrow> bool" where
  "starts_with_bracket s =
     (case dropWhile is_space s of [] \<Rightarrow> False | c # _ \<Rightarrow> c = ch CHR ''['')"

section \<open>Numbers of the host language\<close>

text \<open>
  A JavaScript number is an IEEE 754 double. A finite double is a rational number, and the
  model keeps that rational exactly: \<open>Num q\<close> is the double whose value is \<open>q\<close>. The two
  zeros are one value here, \<open>Num 0\<close>: the script only passes a number to \<^verbatim>\<open>isFinite\<close>
  and \<^verbatim>\<open>toFixed\<close>, and neither tells \<^verbatim>\<open>-0\<close> from \<^verbatim>\<open>+0\<close>.
\<close>

datatype js_number = NaN | PosInfinity | NegInfinity | Num rat

fun isFinite :: "js_number \<Rightarrow> bool" where
  "isFinite (Num q) = True"
| "isFinite _ = False"

fun negate :: "js_number \<Rightarrow> js_number" where
  "negate NaN = NaN"
| "negate PosInfinity = NegInfinity"
| "negate NegInfinity = PosInfinity"
| "negate (Num q) = Num (- q)"

subsection \<open>Rounding a real value to a double\<close>

text \<open>
  Round to nearest, ties to even, with 53 significant bits, exponents from -1022 (below
  that the spacing stays \<open>2\<^sup>-\<^sup>1\<^sup>0\<^sup>7\<^sup>4\<close>: the subnormal numbers) and overflow to an
  infinity once the rounded value reaches \<open>2\<^sup>1\<^sup>0\<^sup>2\<^sup>4\<close>.
\<close>

fun bit_length :: "nat \<Rightarrow> nat" where
  "bit_length n = (if n = 0 then 0 else Suc (bit_length (n div 2)))"

definition pow2 :: "int \<Rightarrow> rat" where
  "pow2 k = (if 0 \<le> k then 2 ^ nat k else 1 / 2 ^ nat (- k))"

definition pow10 :: "int \<Rightarrow> rat" where
  "pow10 k = (if 0 \<le> k then 10 ^ nat k else 1 / 10 ^ nat (- k))"

text \<open>The binary exponent of a positive rational \<open>a\<close>: the \<open>e\<close> with \<open>2\<^sup>e \<le> a < 2\<^sup>e\<^sup>+\<^sup>1\<close>.\<close>

definition binary_exponent :: "rat \<Rightarrow> int" where
  "binary_exponent a =
     (if 1 \<le> a then int (bit_length (nat \<lfloor>a\<rfloor>)) - 1
      else let b = int (bit_length (nat \<lfloor>1 / a\<rfloor>))
           in if a = pow2 (1 - b) then 1 - b else - b)"

definition round_half_even :: "rat \<Rightarrow> int" where
  "round_half_even x =
     (let f = \<lfloor>x\<rfloor>; d = x - of_int f
      in if d < 1 / 2 then f else if 1 / 2 < d then f + 1 else if even f then f else f + 1)"

definition round_double :: "rat \<Rightarrow> js_number" where
  "round_double q =
     (if q = 0 then Num 0
      else let a = \<bar>q\<bar>;
               e = max (binary_exponent a) (- 1022);
               ulp = pow2 (e - 52);
               v = of_int (round_half_even (a / ulp)) * ulp
           in if pow2 1024 \<le> v then (if q < 0 then NegInfinity else PosInfinity)
              else Num (if q < 0 then - v else v))"

subsection \<open>\<^verbatim>\<open>Number(s)\<close> on a string\<close>

text \<open>
  The grammar \<^verbatim>\<open>StringNumericLiteral\<close> of the language standard: optional white space
  around either nothing (the value is 0), a decimal literal with an optional sign
  (\<^verbatim>\<open>Infinity\<close>, or digits with an optional fraction and an optional exponent), or an
  unsigned binary, octal or hexadecimal integer literal. Anything else is \<^verbatim>\<open>NaN\<close>. The
  value of a literal is rounded to the nearest double, exactly, as the engines in use do
  (the standard would also allow a literal of more than twenty significant digits to be
  cut to twenty first).
\<close>

definition is_digit :: "code_unit \<Rightarrow> bool" where
  "is_digit c = (ch CHR ''0'' \<le> c \<and> c \<le> ch CHR ''9'')"

text \<open>
  The value of a digit of a radix up to 16, the letters in either case; 36 for a code
  unit that is no digit.
\<close>

definition digit_value :: "code_unit \<Rightarrow> nat" where
  "digit_value c =
     (if ch CHR ''0'' \<le> c \<and> c \<le> ch CHR ''9'' then c - ch CHR ''0''
      else if ch CHR ''a'' \<le> c \<and> c \<le> ch CHR ''f'' then c - ch CHR ''a'' + 10
      else if ch CHR ''A'' \<le> c \<and> c \<le> ch CHR ''F'' then c - ch CHR ''A'' + 10
      else 36)"

definition radix_value :: "nat \<Rightarrow> js_string \<Rightarrow> nat" where
  "radix_value b s = foldl (\<lambda>a c. b * a + digit_value c) 0 s"

definition radix_digits :: "nat \<Rightarrow> js_string \<Rightarrow> bool" where
  "radix_digits b s = (s \<noteq> [] \<and> list_all (\<lambda>c. digit_value c < b) s)"

definition DecimalDigits :: "js_string \<Rightarrow> nat option" where
  "DecimalDigits s = (if radix_digits 10 s then Some (radix_value 10 s) else None)"

definition SignedInteger :: "js_string \<Rightarrow> int option" where
  "SignedInteger s =
     (case s of
        [] \<Rightarrow> None
      | c # t \<Rightarrow>
          if c = ch CHR ''+'' then map_option int (DecimalDigits t)
          else if c = ch CHR ''-'' then map_option (\<lambda>n. - int n) (DecimalDigits t)
          else map_option int (DecimalDigits s))"

text \<open>The optional exponent part: \<open>Some 0\<close> when it is absent, \<open>None\<close> when the rest of the
  literal is not an exponent part.\<close>

definition ExponentPart :: "js_string \<Rightarrow> int option" where
  "ExponentPart s =
     (case s of
        [] \<Rightarrow> Some 0
      | c # t \<Rightarrow> if c = ch CHR ''e'' \<or> c = ch CHR ''E'' then SignedInteger t else None)"

definition StrUnsignedDecimalLiteral :: "js_string \<Rightarrow> js_number" where
  "StrUnsignedDecimalLiteral s =
     (if s = str ''Infinity'' then PosInfinity
      else let ip = takeWhile is_digit s;
               r1 = dropWhile is_digit s;
               dot = (r1 \<noteq> [] \<and> hd r1 = ch CHR ''.'');
               fp = (if dot then takeWhile is_digit (tl r1) else []);
               r2 = (if dot then dropWhile is_digit (tl r1) else r1)
           in if ip = [] \<and> fp = [] then NaN
              else case ExponentPart r2 of
                     None \<Rightarrow> NaN
                   | Some e \<Rightarrow>
                       round_double (of_nat (radix_value 10 (ip @ fp)) * pow10 (e - int (length fp))))"

definition NonDecimalIntegerLiteral :: "js_string \<Rightarrow> nat option" where
  "NonDecimalIntegerLiteral s =
     (case s of
        z # p # ds \<Rightarrow>
          if z \<noteq> ch CHR ''0'' then None
          else if (p = ch CHR ''x'' \<or> p = ch CHR ''X'') \<and> radix_digits 16 ds then Some (radix_value 16 ds)
          else if (p = ch CHR ''o'' \<or> p = ch CHR ''O'') \<and> radix_digits 8 ds then Some (radix_value 8 ds)
          else if (p = ch CHR ''b'' \<or> p = ch CHR ''B'') \<and> radix_digits 2 ds then Some (radix_value 2 ds)
          else None
      | _ \<Rightarrow> None)"

definition StringToNumber :: "js_string \<Rightarrow> js_number" where
  "StringToNumber s =
     (let t = trim s
      in if t = [] then Num 0
         else case NonDecimalIntegerLiteral t of
                Some n \<Rightarrow> round_double (of_nat n)
              | None \<Rightarrow>
                  if hd t = ch CHR ''+'' then StrUnsignedDecimalLiteral (tl t)
                  else if hd t = ch CHR ''-'' then negate (StrUnsignedDecimalLiteral (tl t))
                  else StrUnsignedDecimalLiteral t)"

subsection \<open>\<^verbatim>\<open>n.toFixed(f)\<close> and \<^verbatim>\<open>String(n)\<close>\<close>

definition digit_char :: "nat \<Rightarrow> code_unit" where
  "digit_char d = str ''0123456789'' ! d"

fun dec :: "nat \<Rightarrow> js_string" where
  "dec n = (if n < 10 then [digit_char n] else dec (n div 10) @ [digit_char (n mod 10)])"

text \<open>
  \<^verbatim>\<open>Number::toString\<close> picks the shortest digit string that reads back as the same
  double: integers \<open>n\<close>, \<open>k \<ge> 1\<close> and \<open>s\<close> with \<open>10\<^sup>k\<^sup>-\<^sup>1 \<le> s < 10\<^sup>k\<close>, \<open>s \<times> 10\<^sup>n\<^sup>-\<^sup>k\<close>
  rounding to \<open>x\<close>, and \<open>k\<close> as small as possible; among several \<open>s\<close> the one nearest to
  \<open>x\<close>, and the even one on a tie. \<open>digit_candidates x k n\<close> lists the \<open>s\<close> that qualify
  for a given \<open>k\<close> and \<open>n\<close>, nearest first: only the two multiples of \<open>10\<^sup>n\<^sup>-\<^sup>k\<close> around
  \<open>x\<close> can be nearest.
\<close>

definition digit_candidates :: "rat \<Rightarrow> nat \<Rightarrow> int \<Rightarrow> (nat \<times> int) list" where
  "digit_candidates x k n =
     (let u = pow10 (n - int k);
          lo = nat \<lfloor>x / u\<rfloor>;
          hi = lo + 1;
          ok = (\<lambda>s. 10 ^ (k - 1) \<le> s \<and> s < 10 ^ k \<and> round_double (of_nat s * u) = Num x);
          dlo = x - of_nat lo * u;
          dhi = of_nat hi * u - x;
          order = (if dlo < dhi \<or> (dlo = dhi \<and> even lo) then [lo, hi] else [hi, lo])
      in map (\<lambda>s. (s, n)) (filter ok order))"

text \<open>
  The decimal exponent \<open>n\<close> is the number \<open>n0\<close> of digits of the integer part of \<open>x\<close>,
  or one more when \<open>x\<close> is the double below a power of ten that itself rounds to \<open>x\<close>.
  The search tries \<open>k = 1, 2, ...\<close> in turn and stops at the first \<open>k\<close> with a
  candidate; seventeen digits identify every double, so it runs over \<open>k = 1, ..., 17\<close>.
\<close>

fun shortest_from :: "rat \<Rightarrow> int \<Rightarrow> nat \<Rightarrow> nat \<Rightarrow> (nat \<times> int) option" where
  "shortest_from x n0 k 0 = None"
| "shortest_from x n0 k (Suc fuel) =
     (case digit_candidates x k n0 @ digit_candidates x k (n0 + 1) of
        [] \<Rightarrow> shortest_from x n0 (Suc k) fuel
      | c # _ \<Rightarrow> Some c)"

definition shortest_digits :: "rat \<Rightarrow> (nat \<times> int) option" where
  "shortest_digits x = shortest_from x (int (length (dec (nat \<lfloor>x\<rfloor>)))) 1 17"

text \<open>
  \<^verbatim>\<open>toFixed\<close> hands a value over to \<^verbatim>\<open>Number::toString\<close> only when it is at least
  \<open>10\<^sup>2\<^sup>1\<close>. Then \<open>n > 21\<close> and the result is in exponent notation: the first digit, a
  point and the other digits when there are any, \<^verbatim>\<open>e+\<close> and \<open>n - 1\<close> in decimal. The
  search always succeeds on a double; the other branch only makes the function total on
  rationals that are not doubles.
\<close>

definition toString_large :: "rat \<Rightarrow> js_string" where
  "toString_large x =
     (case shortest_digits x of
        None \<Rightarrow> dec (nat \<lfloor>x\<rfloor>)
      | Some (s, n) \<Rightarrow>
          (let ds = dec s
           in (if length ds = 1 then ds else hd ds # ch CHR ''.'' # tl ds)
              @ str ''e+'' @ dec (nat (n - 1))))"

text \<open>
  \<^verbatim>\<open>Number.prototype.toFixed\<close> with \<open>f\<close> fraction digits: the sign, then for a
  magnitude below \<open>10\<^sup>2\<^sup>1\<close> the integer \<open>n\<close> nearest to \<open>x \<times> 10\<^sup>f\<close> (the larger one on
  a tie), written in decimal, padded with zeros to \<open>f + 1\<close> digits and split by a point
  before the last \<open>f\<close> digits.
\<close>

definition insert_point :: "nat \<Rightarrow> js_string \<Rightarrow> js_string" where
  "insert_point f m =
     (let m' = (if length m \<le> f then replicate (f + 1 - length m) (ch CHR ''0'') @ m else m);
          k = length m'
      in take (k - f) m' @ str ''.'' @ drop (k - f) m')"

definition toFixed :: "nat \<Rightarrow> js_number \<Rightarrow> js_string" where
  "toFixed f x =
     (case x of
        NaN \<Rightarrow> str ''NaN''
      | PosInfinity \<Rightarrow> str ''Infinity''
      | NegInfinity \<Rightarrow> str ''-Infinity''
      | Num q \<Rightarrow>
          (let s = (if q < 0 then str ''-'' else []);
               a = \<bar>q\<bar>
           in if 10 ^ 21 \<le> a then s @ toString_large a
              else let n = nat \<lfloor>a * 10 ^ f + 1 / 2\<rfloor>;
                       m = dec n
                   in if f = 0 then s @ m else s @ insert_point f m))"

section \<open>The catalog loader\<close>

subsection \<open>Price formatting\<close>

text \<open>
  \<^verbatim>\<open>formatPrice(raw)\<close>. \<open>None\<close> stands for \<^verbatim>\<open>null\<close> and \<^verbatim>\<open>undefined\<close>, the two values
  \<^verbatim>\<open>raw == null\<close> accepts; every other argument the script passes is a string, on which
  \<^verbatim>\<open>String(raw)\<close> is the identity.
\<close>

definition formatPrice :: "js_string option \<Rightarrow> js_string" where
  "formatPrice raw =
     (case raw of
        None \<Rightarrow> str ''$0.00''
      | Some r \<Rightarrow>
          (let s = trim (remove_all (ch CHR '','') (remove_all (ch CHR ''$'') r));
               n = StringToNumber s
           in if \<not> isFinite n then str ''$'' @ s else str ''$'' @ toFixed 2 n))"

subsection \<open>Link rewriting\<close>

text \<open>
  \<^verbatim>\<open>updateRef\<close> relies on the host's \<^verbatim>\<open>URL\<close> class. Its parser and its serialiser are not
  code of the script; they are taken as parameters, gathered in a \<open>platform\<close> together
  with the number format of \<^verbatim>\<open>toLocaleString\<close>, which depends on the host's locale, and
  the host's Unicode case tables for text beyond Latin-1. A parsed URL is a record: the
  text in front of the query, the query as the list of name-value pairs that
  \<^verbatim>\<open>u.searchParams\<close> holds, in order, duplicates included, and the fragment.
  \<^verbatim>\<open>new URL(link)\<close> either returns a URL or throws.
\<close>

datatype js_error = TypeError | Error js_string

record url =
  before_query :: js_string
  searchParams :: "(js_string \<times> js_string) list"
  fragment :: "js_string option"

record platform =
  URL_new :: "js_string \<Rightarrow> js_error + url"
  URL_toString :: "url \<Rightarrow> js_string"
  toLocaleString :: "nat \<Rightarrow> js_string"
  unicode_lower :: "js_string \<Rightarrow> js_string"
  unicode_upper :: "js_string \<Rightarrow> js_string"

text \<open>
  \<^verbatim>\<open>searchParams.set(name, value)\<close>: the first pair of that name takes the value and every
  later pair of that name is removed; without such a pair a new one is appended.
\<close>

fun searchParams_set :: "js_string \<Rightarrow> js_string \<Rightarrow> (js_string \<times> js_string) list \<Rightarrow> (js_string \<times> js_string) list" where
  "searchParams_set n v [] = [(n, v)]"
| "searchParams_set n v (kw # ps) =
     (if fst kw = n then (n, v) # filter (\<lambda>kw'. fst kw' \<noteq> n) ps
      else kw # searchParams_set n v ps)"

definition updateRef :: "platform \<Rightarrow> js_string \<Rightarrow> js_string" where
  "updateRef P link' =
     (case URL_new P link' of
        Inl err \<Rightarrow> link'
      | Inr u \<Rightarrow> URL_toString P (u\<lparr>searchParams := searchParams_set (str ''ref'') (str ''100201678'') (searchParams u)\<rparr>))"

subsection \<open>Case conversion\<close>

text \<open>
  \<^verbatim>\<open>s.toLowerCase()\<close> and \<^verbatim>\<open>s.toUpperCase()\<close>. On a string of Latin-1 they apply the
  mappings written out above, unit by unit. On a string with a code unit from 256 on
  they follow the host's Unicode tables, which are taken as parameters
  (\<open>unicode_lower\<close> and \<open>unicode_upper\<close> of the platform).
\<close>

definition toLowerCase :: "platform \<Rightarrow> js_string \<Rightarrow> js_string" where
  "toLowerCase P s = (if latin1 s then map lower_unit s else unicode_lower P s)"

definition toUpperCase :: "platform \<Rightarrow> js_string \<Rightarrow> js_string" where
  "toUpperCase P s = (if latin1 s then concat (map upper_unit s) else unicode_upper P s)"

subsection \<open>Rows\<close>

record product =
  id_num :: nat
  name :: js_string
  link :: js_string
  price :: js_string
  category :: js_string
  image_url :: js_string

text \<open>
  \<^verbatim>\<open>parseRow(line, index)\<close>; \<open>None\<close> is the \<^verbatim>\<open>null\<close> of a rejected row. The pieces of a
  split are strings, so \<^verbatim>\<open>parts[0] || ""\<close> is \<^verbatim>\<open>parts[0]\<close>, and likewise for
  \<^verbatim>\<open>parts[2]\<close>, which exists once there are three pieces.
\<close>

definition parseRow :: "platform \<Rightarrow> js_string \<Rightarrow> nat \<Rightarrow> product option" where
  "parseRow P line index =
     (let parts = split_on TAB line
      in if length parts < 3 then None
         else let col1 = trim (parts ! 0);
                  image' = trim (parts ! 2);
                  name' = trim (group_or_empty (ch CHR ''['') (ch CHR '']'') col1);
                  link' = trim (group_or_empty (ch CHR ''('') (ch CHR '')'') col1);
                  priceRaw = trim (group_or_empty (ch CHR ''{'') (ch CHR ''}'') col1);
                  category' = toLowerCase P (trim (group_or_empty (ch CHR ''%'') (ch CHR ''%'') col1))
              in if name' = [] then None
                 else Some \<lparr>id_num = index + 1,
                            name = name',
                            link = (if link' \<noteq> [] then updateRef P link' else link'),
                            price = formatPrice (Some priceRaw),
                            category = category',
                            image_url = image'\<rparr>)"

subsection \<open>Loading\<close>

text \<open>
  The outcome of \<^verbatim>\<open>fetch\<close> followed by \<^verbatim>\<open>res.text()\<close>: the promise is rejected (a
  transport error, also one that cuts the body short), or there is a response with its
  \<^verbatim>\<open>ok\<close> flag and its body.
\<close>

datatype fetch_result = Rejected | Response bool js_string

text \<open>The loop of \<^verbatim>\<open>loadProducts\<close> over the data lines; \<open>out\<close> is the array built so far.\<close>

fun parse_rows :: "platform \<Rightarrow> js_string list \<Rightarrow> product list \<Rightarrow> product list" where
  "parse_rows P [] out = out"
| "parse_rows P (l # ls) out =
     (case parseRow P l (length out) of
        None \<Rightarrow> parse_rows P ls out
      | Some row \<Rightarrow> parse_rows P ls (out @ [row]))"

definition loadProducts :: "platform \<Rightarrow> fetch_result \<Rightarrow> js_error + product list" where
  "loadProducts P res =
     (case res of
        Rejected \<Rightarrow> Inl TypeError
      | Response ok body \<Rightarrow>
          if \<not> ok then Inl (Error (str ''Failed to load gemini_products.csv''))
          else let lines = filter (\<lambda>l. l \<noteq> []) (split_lines body)
               in if length lines = 0 then Inr []
                  else let startIdx = (if starts_with_bracket (lines ! 0) then 0 else 1)
                       in Inr (parse_rows P (drop startIdx lines) []))"

section \<open>The incremental renderer\<close>

text \<open>
  A card is the element \<^verbatim>\<open>createCard\<close> builds, reduced to the values it interpolates into
  its markup: the image source and alternative text, the title, the category label, the
  price, the fixed status pill, and the link affordance (an anchor to the link, or the
  disabled text when the link is empty).
\<close>

datatype link_affordance = Buy js_string | LinkChecking

record card =
  card_image :: js_string
  card_alt :: js_string
  card_title :: js_string
  card_category :: js_string
  card_price :: js_string
  card_status :: js_string
  card_link :: link_affordance

text \<open>\<^verbatim>\<open>capitalize(word)\<close>: \<^verbatim>\<open>word.charAt(0)\<close> is the first code unit as a string.\<close>

definition capitalize :: "platform \<Rightarrow> js_string \<Rightarrow> js_string" where
  "capitalize P word = (if word = [] then [] else toUpperCase P [hd word] @ tl word)"

definition createCard :: "platform \<Rightarrow> product \<Rightarrow> card" where
  "createCard P p =
     \<lparr>card_image = image_url p,
      card_alt = name p,
      card_title = name p,
      card_category = capitalize P (category p),
      card_price = price p,
      card_status = str ''Available'',
      card_link = (if link p \<noteq> [] then Buy (link p) else LinkChecking)\<rparr>"

text \<open>
  The module's variables. \<open>grid\<close> and \<open>footerEl\<close> are \<open>None\<close> while the variable is
  \<^verbatim>\<open>undefined\<close>; afterwards \<open>grid\<close> holds the children of the grid element and
  \<open>footerEl\<close> the text of the footer element. \<open>timers\<close> counts the pending
  \<^verbatim>\<open>setTimeout(initDataView, 50)\<close> callbacks, \<open>scroll_listener\<close> tells whether
  \<^verbatim>\<open>onScroll\<close> is registered, and \<open>console\<close> is what \<^verbatim>\<open>console.error\<close> received.
\<close>

record state =
  PRODUCTS :: "product list"
  rendered :: nat
  initialized :: bool
  grid :: "card list option"
  footerEl :: "js_string option"
  timers :: nat
  scroll_listener :: bool
  console :: "js_error list"

definition BATCH_SIZE :: nat where
  "BATCH_SIZE = 24"

definition initial_state :: state where
  "initial_state =
     \<lparr>PRODUCTS = [], rendered = 0, initialized = False, grid = None, footerEl = None,
      timers = 0, scroll_listener = False, console = []\<rparr>"

definition footer_text :: "platform \<Rightarrow> nat \<Rightarrow> nat \<Rightarrow> js_string" where
  "footer_text P r n =
     str ''Displaying '' @ toLocaleString P r @ str '' of '' @ toLocaleString P n @ str '' total items.''"

text \<open>
  \<^verbatim>\<open>grid.appendChild(createCard(PRODUCTS[i]))\<close>: a \<^verbatim>\<open>TypeError\<close> when \<open>grid\<close> is
  \<^verbatim>\<open>undefined\<close>. The loop of \<^verbatim>\<open>renderMore\<close> folds it over \<open>i = rendered, ..., end - 1\<close>
  and stops at the first error.
\<close>

definition appendChild :: "card list option \<Rightarrow> card \<Rightarrow> js_error + card list option" where
  "appendChild g c = (case g of None \<Rightarrow> Inl TypeError | Some cs \<Rightarrow> Inr (Some (cs @ [c])))"

fun append_cards ::
  "platform \<Rightarrow> product list \<Rightarrow> nat list \<Rightarrow> card list option \<Rightarrow> js_error + card list option" where
  "append_cards P ps [] g = Inr g"
| "append_cards P ps (i # is) g =
     (case appendChild g (createCard P (ps ! i)) of
        Inl err \<Rightarrow> Inl err
      | Inr g' \<Rightarrow> append_cards P ps is g')"

text \<open>
  \<^verbatim>\<open>renderMore()\<close>. \<open>PRODUCTS\<close> is always an array, and an array is truthy, so the guard
  \<^verbatim>\<open>!PRODUCTS || rendered >= PRODUCTS.length\<close> is its second half.
\<close>

definition renderMore :: "platform \<Rightarrow> state \<Rightarrow> js_error + state" where
  "renderMore P st =
     (if length (PRODUCTS st) \<le> rendered st then Inr st
      else let end' = min (rendered st + BATCH_SIZE) (length (PRODUCTS st))
           in case append_cards P (PRODUCTS st) [rendered st ..< end'] (grid st) of
                Inl err \<Rightarrow> Inl err
              | Inr g \<Rightarrow>
                  Inr (st\<lparr>grid := g,
                          rendered := end',
                          footerEl := (case footerEl st of
                                         None \<Rightarrow> None
                                       | Some t \<Rightarrow> Some (footer_text P end' (length (PRODUCTS st))))\<rparr>))"

text \<open>
  What a handler sees of the element with the identifier \<^verbatim>\<open>data-view\<close>: whether it carries
  the class \<^verbatim>\<open>hidden\<close>, and the text of its \<^verbatim>\<open>footer\<close> descendant when it has one. A
  handler receives \<open>None\<close> when the element does not exist. Whether the element has a
  \<^verbatim>\<open>main\<close> descendant makes no difference to the module, which empties the grid it finds
  as it would create an empty one.
\<close>

record data_view =
  dv_hidden :: bool
  dv_footer :: "js_string option"

text \<open>The text of the footer element that \<^verbatim>\<open>initDataView\<close> finds, or of the one it creates.\<close>

definition footer_found :: "data_view \<Rightarrow> js_string" where
  "footer_found v = (case dv_footer v of None \<Rightarrow> [] | Some t \<Rightarrow> t)"

text \<open>
  \<^verbatim>\<open>initDataView()\<close>. The grid element is found or created, and emptied in both cases
  (\<^verbatim>\<open>grid.innerHTML = ""\<close>).
\<close>

definition initDataView :: "platform \<Rightarrow> data_view option \<Rightarrow> state \<Rightarrow> js_error + state" where
  "initDataView P dv st =
     (if initialized st then Inr st
      else case dv of
             None \<Rightarrow> Inr st
           | Some v \<Rightarrow>
               (case renderMore P (st\<lparr>grid := Some [], footerEl := Some (footer_found v)\<rparr>) of
                  Inl err \<Rightarrow> Inl err
                | Inr st' \<Rightarrow> Inr (st'\<lparr>initialized := True\<rparr>)))"

text \<open>\<^verbatim>\<open>onScroll()\<close>; \<open>near\<close> is the value of \<^verbatim>\<open>nearBottom()\<close> at the event.\<close>

definition onScroll :: "platform \<Rightarrow> data_view option \<Rightarrow> bool \<Rightarrow> state \<Rightarrow> js_error + state" where
  "onScroll P dv near st =
     (case dv of
        None \<Rightarrow> Inr st
      | Some v \<Rightarrow> if dv_hidden v then Inr st else if near then renderMore P st else Inr st)"

text \<open>
  The wrapper around \<^verbatim>\<open>window.navigate\<close>: after the page's own handler it schedules
  \<^verbatim>\<open>initDataView\<close> when the page is \<^verbatim>\<open>"data"\<close>.
\<close>

definition navigate :: "js_string \<Rightarrow> state \<Rightarrow> state" where
  "navigate page st = (if page = str ''data'' then st\<lparr>timers := Suc (timers st)\<rparr> else st)"

text \<open>
  The \<^verbatim>\<open>load\<close> handler, from the moment the fetch is settled: the products are stored, or
  the error is logged and the empty array stored; the view is initialised when it is
  already visible; the scroll listener is registered.
\<close>

definition on_load :: "platform \<Rightarrow> fetch_result \<Rightarrow> data_view option \<Rightarrow> state \<Rightarrow> js_error + state" where
  "on_load P res dv st =
     (let st1 = (case loadProducts P res of
                   Inl err \<Rightarrow> st\<lparr>PRODUCTS := [], console := console st @ [err]\<rparr>
                 | Inr ps \<Rightarrow> st\<lparr>PRODUCTS := ps\<rparr>);
          visible = (case dv of None \<Rightarrow> False | Some v \<Rightarrow> \<not> dv_hidden v)
      in case (if visible then initDataView P dv st1 else Inr st1) of
           Inl err \<Rightarrow> Inl err
         | Inr st2 \<Rightarrow> Inr (st2\<lparr>scroll_listener := True\<rparr>))"

text \<open>
  The events the page delivers to the module, one at a time: the settled \<^verbatim>\<open>load\<close>
  handler, a call of \<^verbatim>\<open>window.navigate\<close>, a timer firing, and a scroll event. A timer
  fires only while one is pending, and a scroll event reaches \<^verbatim>\<open>onScroll\<close> only once
  the listener is registered.
\<close>

datatype event =
  Load fetch_result "data_view option"
| Navigate js_string
| Timeout "data_view option"
| Scroll "data_view option" bool

definition handle :: "platform \<Rightarrow> event \<Rightarrow> state \<Rightarrow> js_error + state" where
  "handle P ev st =
     (case ev of
        Load res dv \<Rightarrow> on_load P res dv st
      | Navigate page \<Rightarrow> Inr (navigate page st)
      | Timeout dv \<Rightarrow>
          if timers st = 0 then Inr st
          else initDataView P dv (st\<lparr>timers := timers st - 1\<rparr>)
      | Scroll dv near \<Rightarrow> if scroll_listener st then onScroll P dv near st else Inr st)"

text \<open>
  A run of the page: the state after a list of events, and the exceptions that left a
  handler uncaught. The only statement of the module that can throw is the
  \<^verbatim>\<open>appendChild\<close> of \<^verbatim>\<open>renderMore\<close>, before any assignment of that call, and only in
  the scroll handler (\<open>handle_Inl\<close> below): \<^verbatim>\<open>initDataView\<close> sets the grid before it
  calls \<^verbatim>\<open>renderMore\<close>. So a handler that throws leaves the state as it found it.
\<close>

fun run :: "platform \<Rightarrow> event list \<Rightarrow> state \<Rightarrow> state \<times> js_error list" where
  "run P [] st = (st, [])"
| "run P (ev # evs) st =
     (case handle P ev st of
        Inl err \<Rightarrow> (fst (run P evs st), err # snd (run P evs st))
      | Inr st' \<Rightarrow> run P evs st')"

section \<open>Vocabulary of the properties\<close>

text \<open>The raw price after the two replacements and the trim of \<^verbatim>\<open>formatPrice\<close>.\<close>

definition stripped :: "js_string \<Rightarrow> js_string" where
  "stripped raw = trim (remove_all (ch CHR '','') (remove_all (ch CHR ''$'') raw))"

text \<open>
  A natural number of hundredths written with exactly two decimal digits: the decimal
  numeral of the whole part, a point, the tens digit and the units digit of the
  hundredths.
\<close>

definition two_decimals :: "nat \<Rightarrow> js_string" where
  "two_decimals n = dec (n div 100) @ str ''.'' @ [digit_char (n div 10 mod 10), digit_char (n mod 10)]"

text \<open>
  The first tab-delimited column of a line, trimmed: the text the four extractors of
  \<^verbatim>\<open>parseRow\<close> read.
\<close>

definition first_column :: "js_string \<Rightarrow> js_string" where
  "first_column line = trim (hd (split_on TAB line))"


text \<open>The rows a list of lines yields, each parsed on its own, rejected lines left out.\<close>

definition accepted_rows :: "platform \<Rightarrow> js_string list \<Rightarrow> product list" where
  "accepted_rows P ls = List.map_filter (\<lambda>l. parseRow P l 0) ls"

text \<open>A list of rows numbered 1, 2, 3, ... in order.\<close>

definition renumber :: "product list \<Rightarrow> product list" where
  "renumber rows = map (\<lambda>(i, r). r\<lparr>id_num := Suc i\<rparr>) (enumerate 0 rows)"

text \<open>
  A line is rejected when it has fewer than three tab-delimited columns (fewer than two
  TAB characters), or when its first column has no bracketed name or one that is empty
  after trimming.
\<close>

definition rejected :: "js_string \<Rightarrow> bool" where
  "rejected line =
     (length (filter (\<lambda>c. c = TAB) line) < 2
      \<or> (case regex_group (ch CHR ''['') (ch CHR '']'') (first_column line) of
            None \<Rightarrow> True
          | Some g \<Rightarrow> trim g = []))"

text \<open>A line begins with an opening bracket, optionally preceded by white space.\<close>

definition begins_with_bracket :: "js_string \<Rightarrow> bool" where
  "begins_with_bracket line =
     (\<exists>ws rest. line = ws @ ch CHR ''['' # rest \<and> (\<forall>c \<in> set ws. is_space c))"

text \<open>Pieces put together again, with a separator between neighbours.\<close>

fun join_pieces :: "js_string list \<Rightarrow> js_string list \<Rightarrow> js_string" where
  "join_pieces (p # ps) (s # ss) = p @ s @ join_pieces ps ss"
| "join_pieces (p # ps) [] = p"
| "join_pieces [] ss = []"


text \<open>
  A host for the examples. Its URL parser knows one address, its serialiser writes the
  query pairs back with \<^verbatim>\<open>=\<close> and \<^verbatim>\<open>&\<close>, its number format is the plain decimal
  numeral, and its case tables beyond Latin-1 are empty.
\<close>

definition example_url :: url where
  "example_url =
     \<lparr>before_query = str ''https://x.com/p'',
      searchParams = [(str ''ref'', str ''OLD''), (str ''x'', str ''1'')],
      fragment = None\<rparr>"

fun write_query :: "(js_string \<times> js_string) list \<Rightarrow> js_string" where
  "write_query [] = []"
| "write_query [kv] = fst kv @ str ''='' @ snd kv"
| "write_query (kv # kvs) = fst kv @ str ''='' @ snd kv @ str ''&'' @ write_query kvs"

definition example_host :: platform where
  "example_host =
     \<lparr>URL_new = (\<lambda>s. if s = str ''https://x.com/p?ref=OLD&x=1'' then Inr example_url else Inl TypeError),
      URL_toString = (\<lambda>u. before_query u @ str ''?'' @ write_query (searchParams u)),
      toLocaleString = dec,
      unicode_lower = (\<lambda>s. s),
      unicode_upper = (\<lambda>s. s)\<rparr>"

text \<open>
  A catalog for the examples: a header line, a valid row, a row with two columns only, a
  blank line, a row whose bracketed name is white space only, and another valid row. The
  indented line is the valid row behind a space and a no-break space, and the vase line
  has a category with capital letters, one of them beyond ASCII, and white space around
  it.
\<close>

definition example_header_line :: js_string where
  "example_header_line = str ''name'' @ [TAB] @ str ''x'' @ [TAB] @ str ''image''"

definition example_lamp_line :: js_string where
  "example_lamp_line = str ''[Lamp]%Electronics%'' @ [TAB, TAB] @ str ''lamp.png''"

definition example_broken_line :: js_string where
  "example_broken_line = str ''[Broken]'' @ [TAB] @ str ''two columns''"

definition example_desk_line :: js_string where
  "example_desk_line = str ''[Desk]'' @ [TAB, TAB] @ str ''desk.png''"

definition example_blank_line :: js_string where
  "example_blank_line = str ''[ '' @ [NBSP] @ str '']'' @ [TAB, TAB] @ str ''blank.png''"

definition example_indented_line :: js_string where
  "example_indented_line = str '' '' @ [NBSP] @ str ''[Lamp]%Electronics%'' @ [TAB, TAB] @ str ''lamp.png''"

definition example_vase_line :: js_string where
  "example_vase_line = str ''[Vase]% '' @ [0xC9] @ str ''LAN '' @ [NBSP] @ str ''%'' @ [TAB, TAB] @ str ''vase.png''"

text \<open>
  A raw price that is not a number, with dollar signs, commas and white space around and
  inside it.
\<close>

definition example_padded_price :: js_string where
  "example_padded_price = str '' $N$/A,, '' @ [NBSP]"

definition example_catalog :: js_string where
  "example_catalog =
     example_header_line @ [CR, LF] @ example_lamp_line @ [LF] @ example_broken_line @ [LF, LF]
     @ example_blank_line @ [CR, LF] @ example_desk_line"

definition example_rows :: "product list" where
  "example_rows =
     [\<lparr>id_num = 1, name = str ''Lamp'', link = [], price = str ''$0.00'', category = str ''electronics'',
       image_url = str ''lamp.png''\<rparr>,
      \<lparr>id_num = 2, name = str ''Desk'', link = [], price = str ''$0.00'', category = [],
       image_url = str ''desk.png''\<rparr>]"



definition hidden_view :: data_view where
  "hidden_view = \<lparr>dv_hidden = True, dv_footer = None\<rparr>"

definition visible_view :: data_view where
  "visible_view = \<lparr>dv_hidden = False, dv_footer = None\<rparr>"

text \<open>
  The grid shows the first \<open>rendered\<close> records, one card each and in order, and the
  cursor is within the record sequence; before the initialisation nothing is rendered and
  the grid and the footer are still undefined.
\<close>

definition consistent :: "platform \<Rightarrow> state \<Rightarrow> bool" where
  "consistent P st =
     (rendered st \<le> length (PRODUCTS st)
      \<and> (if initialized st
          then grid st = Some (map (createCard P) (take (rendered st) (PRODUCTS st))) \<and> footerEl st \<noteq> None
          else rendered st = 0 \<and> grid st = None \<and> footerEl st = None))"

text \<open>
  The \<^verbatim>\<open>load\<close> events of a run, the failed fetches, and the views in which a run calls
  \<^verbatim>\<open>initDataView\<close>: the view of a load when it is visible, and the view of a timer.
\<close>

fun is_load :: "event \<Rightarrow> bool" where
  "is_load (Load res dv) = True"
| "is_load ev = False"

definition load_count :: "event list \<Rightarrow> nat" where
  "load_count evs = length (filter is_load evs)"

fun failed :: "fetch_result \<Rightarrow> bool" where
  "failed Rejected = True"
| "failed (Response ok body) = (\<not> ok)"

fun failing :: "event \<Rightarrow> bool" where
  "failing (Load res dv) = failed res"
| "failing ev = True"

fun views :: "event \<Rightarrow> data_view list" where
  "views (Load res (Some v)) = (if dv_hidden v then [] else [v])"
| "views (Timeout (Some v)) = [v]"
| "views ev = []"

section \<open>Auxiliary facts\<close>

declare dec.simps [simp del] bit_length.simps [simp del]

lemma split_on_nonempty: "split_on sep s \<noteq> []"
  by (induction s) (auto split: list.splits)

subsection \<open>Evaluation on numerals\<close>

lemma floor_rat_numeral_div: "\<lfloor>(numeral a :: rat) / numeral b\<rfloor> = numeral a div numeral b"
  using floor_divide_of_int_eq[of "numeral a" "numeral b", where ?'a = rat] by simp

lemma floor_rat_one_div: "\<lfloor>(1 :: rat) / numeral b\<rfloor> = 1 div numeral b"
  using floor_divide_of_int_eq[of 1 "numeral b", where ?'a = rat] by simp

lemma bit_length_0: "bit_length 0 = 0"
  by (subst bit_length.simps) simp

lemma bit_length_Suc_0: "bit_length (Suc 0) = Suc 0"
  by (subst bit_length.simps) (simp add: bit_length_0)

lemma bit_length_numeral: "bit_length (numeral n) = Suc (bit_length (numeral n div 2))"
  by (subst bit_length.simps) simp

subsection \<open>Decimal numerals\<close>

lemma dec_digit: "n < 10 \<Longrightarrow> dec n = [digit_char n]"
  by (subst dec.simps) simp

lemma dec_step: "10 \<le> n \<Longrightarrow> dec n = dec (n div 10) @ [digit_char (n mod 10)]"
  by (subst dec.simps) simp

lemma dec_two: "10 \<le> n \<Longrightarrow> n < 100 \<Longrightarrow> dec n = [digit_char (n div 10), digit_char (n mod 10)]"
  by (simp add: dec_step dec_digit)

lemma dec_hundred:
  assumes "100 \<le> n"
  shows "dec n = dec (n div 100) @ [digit_char (n div 10 mod 10), digit_char (n mod 10)]"
proof -
  from assms have a: "10 \<le> n" and b: "10 \<le> n div 10" by auto
  have c: "n div 10 div 10 = n div 100" by (simp add: div_mult2_eq[symmetric])
  show ?thesis using dec_step[OF a] dec_step[OF b] c by simp
qed

lemma dec_nonempty: "dec n \<noteq> []"
  by (subst dec.simps) simp

lemma digit_char_0: "digit_char 0 = ch CHR ''0''"
  by (simp add: digit_char_def str_def)

lemma insert_point_2: "insert_point 2 (dec n) = two_decimals n"
proof -
  consider "n < 10" | "10 \<le> n" "n < 100" | "100 \<le> n" by linarith
  then show ?thesis
  proof cases
    case 1
    then show ?thesis
      by (simp add: insert_point_def dec_digit two_decimals_def Let_def digit_char_0 numeral_3_eq_3)
  next
    case 2
    then show ?thesis
      by (simp add: insert_point_def dec_two two_decimals_def Let_def digit_char_0 dec_digit)
  next
    case 3
    have "dec (n div 100) \<noteq> []" by (rule dec_nonempty)
    then show ?thesis
      using 3 by (simp add: insert_point_def dec_hundred[OF 3] two_decimals_def Let_def)
  qed
qed

lemma toFixed_2:
  assumes "\<bar>q\<bar> < 10 ^ 21"
  shows "toFixed 2 (Num q) = (if q < 0 then str ''-'' else []) @ two_decimals (nat \<lfloor>\<bar>q\<bar> * 100 + 1 / 2\<rfloor>)"
proof -
  from assms have "\<not> (10 ^ 21 \<le> \<bar>q\<bar>)" by simp
  then show ?thesis
    by (simp add: toFixed_def Let_def insert_point_2)
qed

lemma toFixed_2_zero: "toFixed 2 (Num 0) = str ''0.00''"
  by (simp add: str_def ch_def toFixed_2 two_decimals_def dec_digit digit_char_def floor_rat_one_div)

lemma formatPrice_empty: "formatPrice (Some []) = str ''$0.00''"
  by (simp add: formatPrice_def remove_all_def trim_def StringToNumber_def toFixed_2_zero) (simp add: str_def)

subsection \<open>Trimming\<close>

lemma trim_Nil: "trim [] = []"
  by (simp add: trim_def)

lemma dropWhile_rev_take: "\<exists>k. rev (dropWhile Q (rev ys)) = take k ys"
proof -
  have "rev ys = takeWhile Q (rev ys) @ dropWhile Q (rev ys)" by simp
  then have "ys = rev (dropWhile Q (rev ys)) @ rev (takeWhile Q (rev ys))"
    by (metis rev_append rev_rev_ident)
  then have "take (length (rev (dropWhile Q (rev ys)))) ys = rev (dropWhile Q (rev ys))"
    by (metis append_eq_conv_conj)
  then show ?thesis by metis
qed

lemma trim_hd: "trim s \<noteq> [] \<Longrightarrow> \<not> is_space (hd (trim s))"
proof -
  assume ne: "trim s \<noteq> []"
  obtain k where k: "trim s = take k (dropWhile is_space s)"
    unfolding trim_def using dropWhile_rev_take by blast
  from ne k have "dropWhile is_space s \<noteq> []" and "0 < k" by (auto intro: Nat.gr0I)
  then have "hd (trim s) = hd (dropWhile is_space s)"
    using k by (simp add: hd_take)
  then show ?thesis
    using hd_dropWhile[OF \<open>dropWhile is_space s \<noteq> []\<close>] by simp
qed

lemma trim_last: "trim s \<noteq> [] \<Longrightarrow> \<not> is_space (last (trim s))"
proof -
  assume ne: "trim s \<noteq> []"
  then have "dropWhile is_space (rev (dropWhile is_space s)) \<noteq> []"
    by (simp add: trim_def)
  from hd_dropWhile[OF this] show ?thesis
    using ne by (simp add: trim_def last_rev)
qed

lemma trim_fixed: "s = [] \<or> (\<not> is_space (hd s) \<and> \<not> is_space (last s)) \<Longrightarrow> trim s = s"
proof (cases "s = []")
  case True
  then show ?thesis by (simp add: trim_def)
next
  case False
  assume "s = [] \<or> (\<not> is_space (hd s) \<and> \<not> is_space (last s))"
  with False have h: "\<not> is_space (hd s)" and l: "\<not> is_space (last s)" by auto
  from False h have a: "dropWhile is_space s = s" by (cases s) auto
  from False l have "\<not> is_space (hd (rev s))" by (simp add: hd_rev)
  with False have b: "dropWhile is_space (rev s) = rev s" by (cases "rev s") auto
  show ?thesis by (simp add: trim_def a b)
qed

lemma trim_idem: "trim (trim s) = trim s"
  by (rule trim_fixed) (use trim_hd trim_last in blast)

lemma trim_stripped: "trim (stripped raw) = stripped raw"
  by (simp add: stripped_def trim_idem)




lemma stripped_NA: "stripped (str ''N/A'') = str ''N/A''"
  by (simp add: str_def ch_def stripped_def remove_all_def trim_def is_space_def)

lemma stripped_Nil: "stripped [] = []"
  by (simp add: stripped_def remove_all_def trim_def)

lemma stripped_padded: "stripped example_padded_price = str ''N/A''"
  by (simp add: str_def ch_def example_padded_price_def stripped_def remove_all_def trim_def is_space_def NBSP_def)

subsection \<open>Strings that are not numeric literals\<close>

lemma is_digit_iff: "is_digit c \<longleftrightarrow> c \<in> set (str ''0123456789'')"
proof
  assume "is_digit c"
  then have "c \<in> {48, 49, 50, 51, 52, 53, 54, 55, 56, 57}"
    unfolding is_digit_def ch_def by (simp; arith)
  then show "c \<in> set (str ''0123456789'')"
    by (simp add: str_def ch_def)
next
  assume "c \<in> set (str ''0123456789'')"
  then show "is_digit c"
    by (auto simp: is_digit_def str_def ch_def)
qed

lemma NonDecimalIntegerLiteral_None: "c \<noteq> ch CHR ''0'' \<Longrightarrow> NonDecimalIntegerLiteral (c # cs) = None"
  by (cases cs) (simp_all add: NonDecimalIntegerLiteral_def)

lemma StringToNumber_NaN:
  assumes ne: "s \<noteq> []" and tr: "trim s = s" and hd: "hd s \<notin> set (str ''0123456789+-.I'')"
  shows "StringToNumber s = NaN"
proof -
  obtain c cs where s: "s = c # cs" using ne by (cases s) auto
  from hd s have c: "c \<notin> set (str ''0123456789+-.I'')" by simp
  then have nd: "\<not> is_digit c" by (auto simp: is_digit_iff str_def ch_def)
  from c have c0: "c \<noteq> ch CHR ''0''" and cp: "c \<noteq> ch CHR ''+''" and cm: "c \<noteq> ch CHR ''-''"
    and cd: "c \<noteq> ch CHR ''.''" and ci: "c \<noteq> ch CHR ''I''" by (auto simp: str_def)
  from ci s have inf: "s \<noteq> str ''Infinity''" by (auto simp: str_def)
  have lit: "StrUnsignedDecimalLiteral s = NaN"
    using nd cd inf by (simp add: StrUnsignedDecimalLiteral_def s Let_def)
  have non: "NonDecimalIntegerLiteral s = None"
    using c0 by (simp add: NonDecimalIntegerLiteral_None s)
  have tr': "trim (c # cs) = c # cs"
    using tr s by simp
  show ?thesis
    using lit non cp cm by (simp add: StringToNumber_def tr' Let_def s)
qed

subsection \<open>Splitting\<close>

lemma length_split_on: "length (split_on sep s) = Suc (length (filter (\<lambda>c. c = sep) s))"
  by (induction s) (auto split: list.splits simp: split_on_nonempty)

lemma hd_split_on: "hd (split_on sep s) = takeWhile (\<lambda>c. c \<noteq> sep) s"
  by (induction s) (auto split: list.splits simp: split_on_nonempty)

lemma split_lines_nonempty: "split_lines s \<noteq> []"
  by (induction s rule: split_lines.induct) (auto split: list.splits)

lemma split_lines_no_LF: "l \<in> set (split_lines s) \<Longrightarrow> LF \<notin> set l"
  by (induction s arbitrary: l rule: split_lines.induct) (auto split: list.splits if_splits)

subsection \<open>The extractors\<close>






subsection \<open>Rows\<close>

lemma parseRow_index:
  "parseRow P line i = map_option (\<lambda>r. r\<lparr>id_num := Suc i\<rparr>) (parseRow P line 0)"
  by (simp add: parseRow_def Let_def)

lemma parseRow_None_iff: "parseRow P line i = None \<longleftrightarrow> rejected line"
proof -
  have len: "length (split_on TAB line) < 3 \<longleftrightarrow> length (filter (\<lambda>c. c = TAB) line) < 2"
    by (simp add: length_split_on)
  have hd0: "split_on TAB line ! 0 = hd (split_on TAB line)"
    by (simp add: hd_conv_nth split_on_nonempty)
  show ?thesis
    by (auto simp: parseRow_def Let_def rejected_def first_column_def group_or_empty_def len hd0 trim_Nil
        split: option.splits)
qed

lemma parse_rows_eq:
  "parse_rows P ls out =
     out @ map (\<lambda>(i, r). r\<lparr>id_num := Suc i\<rparr>) (enumerate (length out) (accepted_rows P ls))"
proof (induction ls arbitrary: out)
  case Nil
  then show ?case by (simp add: accepted_rows_def)
next
  case (Cons l ls)
  show ?case
  proof (cases "parseRow P l 0")
    case None
    then have "parseRow P l (length out) = None"
      using parseRow_index[of P l "length out"] by simp
    with None Cons.IH[of out] show ?thesis
      by (simp add: accepted_rows_def)
  next
    case (Some r)
    then have "parseRow P l (length out) = Some (r\<lparr>id_num := Suc (length out)\<rparr>)"
      using parseRow_index[of P l "length out"] by simp
    with Some Cons.IH[of "out @ [r\<lparr>id_num := Suc (length out)\<rparr>]"] show ?thesis
      by (simp add: accepted_rows_def)
  qed
qed

lemma parse_rows_renumber: "parse_rows P ls [] = renumber (accepted_rows P ls)"
  by (simp add: parse_rows_eq renumber_def)

lemma id_num_renumber: "map id_num (renumber rows) = [1 ..< Suc (length rows)]"
proof -
  have "map id_num (renumber rows) = map (Suc \<circ> fst) (enumerate 0 rows)"
    by (simp add: renumber_def case_prod_unfold comp_def)
  also have "\<dots> = map Suc (map fst (enumerate 0 rows))"
    by (simp only: map_map)
  also have "\<dots> = map Suc [0 ..< length rows]"
    by (simp only: map_fst_enumerate add_0)
  also have "\<dots> = [1 ..< Suc (length rows)]"
    by (simp add: map_Suc_upt)
  finally show ?thesis .
qed

lemma length_renumber: "length (renumber rows) = length rows"
  by (simp add: renumber_def)


lemma starts_with_bracket_iff: "starts_with_bracket line \<longleftrightarrow> begins_with_bracket line"
proof
  assume "starts_with_bracket line"
  then obtain rest where "dropWhile is_space line = ch CHR ''['' # rest"
    by (auto simp: starts_with_bracket_def split: list.splits)
  then have "line = takeWhile is_space line @ ch CHR ''['' # rest"
    using takeWhile_dropWhile_id[of is_space line] by simp
  moreover have "\<forall>c \<in> set (takeWhile is_space line). is_space c"
    by (auto dest: set_takeWhileD)
  ultimately show "begins_with_bracket line"
    unfolding begins_with_bracket_def by blast
next
  assume "begins_with_bracket line"
  then obtain ws rest where line: "line = ws @ ch CHR ''['' # rest" and ws: "\<forall>c \<in> set ws. is_space c"
    unfolding begins_with_bracket_def by blast
  have "\<not> is_space (ch CHR ''['')"
    by (simp add: str_def ch_def is_space_def)
  with ws have "dropWhile is_space line = ch CHR ''['' # rest"
    unfolding line by (induction ws) auto
  then show "starts_with_bracket line"
    by (simp add: starts_with_bracket_def)
qed

lemma LF_neq_CR: "LF \<noteq> CR"
  by (simp add: LF_def CR_def)

lemma split_lines_boundaries:
  "\<exists>seps. length (split_lines s) = Suc (length seps)
          \<and> set seps \<subseteq> {[LF], [CR, LF]}
          \<and> join_pieces (split_lines s) seps = s
          \<and> (\<forall>i < length seps. seps ! i = [LF] \<longrightarrow>
                split_lines s ! i = [] \<or> last (split_lines s ! i) \<noteq> CR)"
proof (induction s rule: split_lines.induct)
  case 1
  have "length (split_lines []) = Suc (length ([] :: js_string list)) \<and> set ([] :: js_string list) \<subseteq> {[LF], [CR, LF]}
        \<and> join_pieces (split_lines []) [] = []
        \<and> (\<forall>i < length ([] :: js_string list). ([] :: js_string list) ! i = [LF] \<longrightarrow>
                split_lines [] ! i = [] \<or> last (split_lines [] ! i) \<noteq> CR)" by simp
  then show ?case by blast
next
  case (2 x)
  show ?case
  proof (cases "x = LF")
    case True
    then have "length (split_lines [x]) = Suc (length [[LF]]) \<and> set [[LF]] \<subseteq> {[LF], [CR, LF]}
        \<and> join_pieces (split_lines [x]) [[LF]] = [x]
        \<and> (\<forall>i < length [[LF]]. [[LF]] ! i = [LF] \<longrightarrow>
                split_lines [x] ! i = [] \<or> last (split_lines [x] ! i) \<noteq> CR)" by simp
    then show ?thesis by blast
  next
    case False
    then have "length (split_lines [x]) = Suc (length ([] :: js_string list)) \<and> set ([] :: js_string list) \<subseteq> {[LF], [CR, LF]}
        \<and> join_pieces (split_lines [x]) [] = [x]
        \<and> (\<forall>i < length ([] :: js_string list). ([] :: js_string list) ! i = [LF] \<longrightarrow>
                split_lines [x] ! i = [] \<or> last (split_lines [x] ! i) \<noteq> CR)" by simp
    then show ?thesis by blast
  qed
next
  case (3 x y zs)
  consider (crlf) "x = CR \<and> y = LF" | (lf) "\<not> (x = CR \<and> y = LF)" "x = LF"
    | (other) "\<not> (x = CR \<and> y = LF)" "x \<noteq> LF" by blast
  then show ?case
  proof cases
    case crlf
    from 3(1)[OF crlf] obtain seps where seps: "length (split_lines zs) = Suc (length seps)"
      "set seps \<subseteq> {[LF], [CR, LF]}" "join_pieces (split_lines zs) seps = zs"
      "\<forall>i < length seps. seps ! i = [LF] \<longrightarrow> split_lines zs ! i = [] \<or> last (split_lines zs ! i) \<noteq> CR"
      by blast
    have sl: "split_lines (x # y # zs) = [] # split_lines zs" using crlf by simp
    have "\<forall>i < length ([CR, LF] # seps). ([CR, LF] # seps) ! i = [LF] \<longrightarrow>
            ([] # split_lines zs) ! i = [] \<or> last (([] # split_lines zs) ! i) \<noteq> CR"
      using seps(4) by (auto simp: nth_Cons split: nat.splits)
    then have "length (split_lines (x # y # zs)) = Suc (length ([CR, LF] # seps))
        \<and> set ([CR, LF] # seps) \<subseteq> {[LF], [CR, LF]}
        \<and> join_pieces (split_lines (x # y # zs)) ([CR, LF] # seps) = x # y # zs
        \<and> (\<forall>i < length ([CR, LF] # seps). ([CR, LF] # seps) ! i = [LF] \<longrightarrow>
              split_lines (x # y # zs) ! i = [] \<or> last (split_lines (x # y # zs) ! i) \<noteq> CR)"
      using crlf seps(1-3) unfolding sl by simp
    then show ?thesis by blast
  next
    case lf
    from 3(2)[OF lf] obtain seps where seps: "length (split_lines (y # zs)) = Suc (length seps)"
      "set seps \<subseteq> {[LF], [CR, LF]}" "join_pieces (split_lines (y # zs)) seps = y # zs"
      "\<forall>i < length seps. seps ! i = [LF] \<longrightarrow>
         split_lines (y # zs) ! i = [] \<or> last (split_lines (y # zs) ! i) \<noteq> CR"
      by blast
    have sl: "split_lines (x # y # zs) = [] # split_lines (y # zs)" using lf LF_neq_CR by simp
    have "\<forall>i < length ([LF] # seps). ([LF] # seps) ! i = [LF] \<longrightarrow>
            ([] # split_lines (y # zs)) ! i = [] \<or> last (([] # split_lines (y # zs)) ! i) \<noteq> CR"
      using seps(4) by (auto simp: nth_Cons split: nat.splits)
    then have "length (split_lines (x # y # zs)) = Suc (length ([LF] # seps))
        \<and> set ([LF] # seps) \<subseteq> {[LF], [CR, LF]}
        \<and> join_pieces (split_lines (x # y # zs)) ([LF] # seps) = x # y # zs
        \<and> (\<forall>i < length ([LF] # seps). ([LF] # seps) ! i = [LF] \<longrightarrow>
              split_lines (x # y # zs) ! i = [] \<or> last (split_lines (x # y # zs) ! i) \<noteq> CR)"
      using lf seps(1-3) unfolding sl by simp
    then show ?thesis by blast
  next
    case other
    from 3(3)[OF other] obtain seps where seps: "length (split_lines (y # zs)) = Suc (length seps)"
      "set seps \<subseteq> {[LF], [CR, LF]}" "join_pieces (split_lines (y # zs)) seps = y # zs"
      "\<forall>i < length seps. seps ! i = [LF] \<longrightarrow>
         split_lines (y # zs) ! i = [] \<or> last (split_lines (y # zs) ! i) \<noteq> CR"
      by blast
    obtain p ps where pps: "split_lines (y # zs) = p # ps"
      using split_lines_nonempty[of "y # zs"] by (cases "split_lines (y # zs)") auto
    have sl: "split_lines (x # y # zs) = (x # p) # ps"
      using other pps by simp
    have j: "join_pieces ((x # p) # ps) seps = x # join_pieces (p # ps) seps"
      by (cases seps) auto
    have first: "last (x # p) \<noteq> CR" if "0 < length seps" "seps ! 0 = [LF]"
    proof (cases "p = []")
      case True
      from that obtain ss where ss: "seps = [LF] # ss" by (cases seps) auto
      with seps(3) pps True have "y = LF" by simp
      with other True show ?thesis by simp
    next
      case False
      with seps(4) that pps show ?thesis by auto
    qed
    have "\<forall>i < length seps. seps ! i = [LF] \<longrightarrow>
            ((x # p) # ps) ! i = [] \<or> last (((x # p) # ps) ! i) \<noteq> CR"
    proof (intro allI impI)
      fix i
      assume i: "i < length seps" "seps ! i = [LF]"
      show "((x # p) # ps) ! i = [] \<or> last (((x # p) # ps) ! i) \<noteq> CR"
      proof (cases i)
        case 0
        with i first show ?thesis by simp
      next
        case (Suc k)
        with i seps(4) pps show ?thesis by auto
      qed
    qed
    then have "length (split_lines (x # y # zs)) = Suc (length seps)
        \<and> set seps \<subseteq> {[LF], [CR, LF]}
        \<and> join_pieces (split_lines (x # y # zs)) seps = x # y # zs
        \<and> (\<forall>i < length seps. seps ! i = [LF] \<longrightarrow>
              split_lines (x # y # zs) ! i = [] \<or> last (split_lines (x # y # zs) ! i) \<noteq> CR)"
      using seps(1-3) pps j unfolding sl by simp
    then show ?thesis by blast
  qed
qed

subsection \<open>The example catalog\<close>

lemmas string_eval =
  ch_def str_def TAB_def LF_def CR_def NBSP_def is_space_def trim_def remove_all_def
  group_or_empty_def toLowerCase_def toUpperCase_def latin1_def lower_unit_def upper_unit_def

lemmas example_line_defs =
  example_header_line_def example_lamp_line_def example_broken_line_def example_desk_line_def
  example_blank_line_def example_indented_line_def example_vase_line_def

lemma example_lines:
  "filter (\<lambda>l. l \<noteq> []) (split_lines example_catalog) =
     [example_header_line, example_lamp_line, example_broken_line, example_blank_line,
      example_desk_line]"
  by (simp add: str_def ch_def example_catalog_def example_line_defs TAB_def LF_def CR_def NBSP_def)

lemma example_row_Lamp:
  "parseRow P example_lamp_line i =
     Some \<lparr>id_num = Suc i, name = str ''Lamp'', link = [], price = str ''$0.00'', category = str ''electronics'',
           image_url = str ''lamp.png''\<rparr>"
  by (simp add: parseRow_def example_line_defs string_eval formatPrice_empty)

lemma example_row_Broken: "parseRow P example_broken_line i = None"
  by (simp add: parseRow_def example_line_defs string_eval)

lemma example_row_Header: "parseRow P example_header_line i = None"
  by (simp add: parseRow_def example_line_defs string_eval)

lemma example_row_Blank: "parseRow P example_blank_line i = None"
  by (simp add: parseRow_def example_line_defs string_eval)

lemma example_row_Indented:
  "parseRow P example_indented_line i =
     Some \<lparr>id_num = Suc i, name = str ''Lamp'', link = [], price = str ''$0.00'', category = str ''electronics'',
           image_url = str ''lamp.png''\<rparr>"
  by (simp add: parseRow_def example_line_defs string_eval formatPrice_empty)


lemma example_indented_bracket: "starts_with_bracket example_indented_line"
  by (simp add: starts_with_bracket_def example_line_defs string_eval)

lemma example_indented_alone:
  "filter (\<lambda>l. l \<noteq> []) (split_lines example_indented_line) = [example_indented_line]"
  by (simp add: str_def ch_def example_line_defs TAB_def LF_def CR_def NBSP_def)

lemma example_row_Desk:
  "parseRow P example_desk_line i =
     Some \<lparr>id_num = Suc i, name = str ''Desk'', link = [], price = str ''$0.00'', category = [],
           image_url = str ''desk.png''\<rparr>"
  by (simp add: parseRow_def example_line_defs string_eval formatPrice_empty)

lemma example_header: "\<not> starts_with_bracket example_header_line"
  by (simp add: starts_with_bracket_def example_line_defs string_eval)

lemma example_lamp_bracket: "starts_with_bracket example_lamp_line"
  by (simp add: starts_with_bracket_def example_line_defs string_eval)



lemma example_lamp_alone: "filter (\<lambda>l. l \<noteq> []) (split_lines example_lamp_line) = [example_lamp_line]"
  by (simp add: str_def ch_def example_line_defs TAB_def LF_def CR_def)

lemma example_load: "loadProducts P (Response True example_catalog) = Inr example_rows"
  by (simp add: loadProducts_def example_lines example_header example_row_Lamp example_row_Broken
      example_row_Blank example_row_Desk example_rows_def Let_def)

subsection \<open>Query parameters\<close>

lemma searchParams_set_own:
  "filter (\<lambda>kv. fst kv = n) (searchParams_set n v ps) = [(n, v)]"
  by (induction ps) (auto simp: filter_empty_conv)

lemma searchParams_set_others:
  "filter (\<lambda>kv. fst kv \<noteq> n) (searchParams_set n v ps) = filter (\<lambda>kv. fst kv \<noteq> n) ps"
  by (induction ps) auto

lemma searchParams_set_before:
  "takeWhile (\<lambda>kv. fst kv \<noteq> n) (searchParams_set n v ps) = takeWhile (\<lambda>kv. fst kv \<noteq> n) ps"
  by (induction ps) auto

lemma parseRow_link:
  assumes "parseRow P line i = Some r"
  shows "link r = (let l = trim (group_or_empty (ch CHR ''('') (ch CHR '')'') (first_column line))
                   in if l = [] then [] else updateRef P l)"
proof -
  have hd0: "split_on TAB line ! 0 = hd (split_on TAB line)"
    by (simp add: hd_conv_nth split_on_nonempty)
  from assms show ?thesis
    by (auto simp: parseRow_def Let_def first_column_def hd0 split: if_splits)
qed

subsection \<open>Rendering\<close>

lemma append_cards_Some:
  "append_cards P ps is (Some g) = Inr (Some (g @ map (\<lambda>i. createCard P (ps ! i)) is))"
  by (induction "is" arbitrary: g) (simp_all add: appendChild_def)

lemma append_cards_None: "is \<noteq> [] \<Longrightarrow> append_cards P ps is None = Inl TypeError"
  by (cases "is") (simp_all add: appendChild_def)

lemma map_nth_slice:
  assumes "e \<le> length ps"
  shows "map (\<lambda>i. f (ps ! i)) [r ..< e] = map f (take (e - r) (drop r ps))"
proof (rule nth_equalityI)
  show "length (map (\<lambda>i. f (ps ! i)) [r ..< e]) = length (map f (take (e - r) (drop r ps)))"
    using assms by simp
next
  fix i
  assume "i < length (map (\<lambda>i. f (ps ! i)) [r ..< e])"
  then have i: "i < e - r" by simp
  with assms show "map (\<lambda>i. f (ps ! i)) [r ..< e] ! i = map f (take (e - r) (drop r ps)) ! i"
    by simp
qed

lemma renderMore_noop: "length (PRODUCTS st) \<le> rendered st \<Longrightarrow> renderMore P st = Inr st"
  by (simp add: renderMore_def)

lemma renderMore_undefined_grid:
  assumes "rendered st < length (PRODUCTS st)" and "grid st = None"
  shows "renderMore P st = Inl TypeError"
proof -
  from assms have "[rendered st ..< min (rendered st + 24) (length (PRODUCTS st))] \<noteq> []"
    by (auto simp: min_def)
  from append_cards_None[OF this] assms show ?thesis
    by (simp add: renderMore_def Let_def BATCH_SIZE_def)
qed

lemma renderMore_step:
  assumes "rendered st < length (PRODUCTS st)" and "grid st = Some g"
  shows "renderMore P st =
     Inr (st\<lparr>grid := Some (g @ map (createCard P)
                              (take (min (rendered st + 24) (length (PRODUCTS st)) - rendered st)
                                    (drop (rendered st) (PRODUCTS st)))),
             rendered := min (rendered st + 24) (length (PRODUCTS st)),
             footerEl := (case footerEl st of
                            None \<Rightarrow> None
                          | Some t \<Rightarrow> Some (footer_text P (min (rendered st + 24) (length (PRODUCTS st)))
                                                      (length (PRODUCTS st))))\<rparr>)"
  using assms
  by (simp add: renderMore_def Let_def BATCH_SIZE_def append_cards_Some map_nth_slice)

subsection \<open>Handlers\<close>

lemma renderMore_Inl:
  assumes "renderMore P st = Inl e"
  shows "e = TypeError \<and> grid st = None \<and> rendered st < length (PRODUCTS st)"
proof (cases "rendered st < length (PRODUCTS st)")
  case False
  with assms show ?thesis by (simp add: renderMore_noop)
next
  case True
  show ?thesis
  proof (cases "grid st")
    case None
    with True assms show ?thesis by (simp add: renderMore_undefined_grid)
  next
    case (Some g)
    with True assms show ?thesis by (simp add: renderMore_step)
  qed
qed

lemma renderMore_Inr:
  assumes "renderMore P st = Inr st'"
  shows "initialized st' = initialized st \<and> PRODUCTS st' = PRODUCTS st \<and> timers st' = timers st
         \<and> scroll_listener st' = scroll_listener st \<and> console st' = console st
         \<and> rendered st \<le> rendered st'
         \<and> (rendered st < length (PRODUCTS st) \<longrightarrow>
              rendered st < rendered st' \<and> rendered st' \<le> length (PRODUCTS st))
         \<and> (\<forall>g. grid st = Some g \<longrightarrow>
              grid st' = Some (g @ map (createCard P) (take (rendered st' - rendered st) (drop (rendered st) (PRODUCTS st)))))
         \<and> (grid st = None \<longrightarrow> st' = st)
         \<and> (footerEl st = None \<longleftrightarrow> footerEl st' = None)"
proof (cases "rendered st < length (PRODUCTS st)")
  case False
  with assms show ?thesis by (simp add: renderMore_noop)
next
  case True
  show ?thesis
  proof (cases "grid st")
    case None
    with True assms show ?thesis by (simp add: renderMore_undefined_grid)
  next
    case (Some g)
    with True assms have "st' = st\<lparr>grid := Some (g @ map (createCard P)
                              (take (min (rendered st + 24) (length (PRODUCTS st)) - rendered st)
                                    (drop (rendered st) (PRODUCTS st)))),
             rendered := min (rendered st + 24) (length (PRODUCTS st)),
             footerEl := (case footerEl st of
                            None \<Rightarrow> None
                          | Some t \<Rightarrow> Some (footer_text P (min (rendered st + 24) (length (PRODUCTS st)))
                                                      (length (PRODUCTS st))))\<rparr>"
      by (simp add: renderMore_step)
    with True Some show ?thesis
      by (auto split: option.splits)
  qed
qed

lemma renderMore_empty: "PRODUCTS st = [] \<Longrightarrow> renderMore P st = Inr st"
  by (simp add: renderMore_noop)

lemma initDataView_latched: "initialized st \<Longrightarrow> initDataView P dv st = Inr st"
  by (simp add: initDataView_def)

lemma initDataView_absent: "initDataView P None st = Inr st"
  by (simp add: initDataView_def)

lemma initDataView_first:
  assumes "\<not> initialized st"
  shows "\<exists>s. renderMore P (st\<lparr>grid := Some [], footerEl := Some (footer_found v)\<rparr>) = Inr s
             \<and> initDataView P (Some v) st = Inr (s\<lparr>initialized := True\<rparr>)"
proof (cases "renderMore P (st\<lparr>grid := Some [], footerEl := Some (footer_found v)\<rparr>)")
  case (Inl e)
  from renderMore_Inl[OF this] show ?thesis by simp
next
  case (Inr s)
  with assms show ?thesis by (simp add: initDataView_def)
qed

lemma initDataView_total: "\<exists>st'. initDataView P dv st = Inr st'"
proof (cases "initialized st")
  case True
  then show ?thesis by (simp add: initDataView_latched)
next
  case False
  show ?thesis
  proof (cases dv)
    case None
    then show ?thesis by (simp add: initDataView_absent)
  next
    case (Some v)
    with initDataView_first[OF False, of P v] show ?thesis by auto
  qed
qed

lemma on_load_total: "\<exists>st'. on_load P res dv st = Inr st'"
proof -
  define st1 where "st1 = (case loadProducts P res of
                   Inl err \<Rightarrow> st\<lparr>PRODUCTS := [], console := console st @ [err]\<rparr>
                 | Inr ps \<Rightarrow> st\<lparr>PRODUCTS := ps\<rparr>)"
  obtain st2 where "initDataView P dv st1 = Inr st2"
    using initDataView_total by blast
  then show ?thesis
    by (simp add: on_load_def st1_def[symmetric] Let_def)
qed

lemma handle_Inl:
  assumes "handle P ev st = Inl e"
  shows "e = TypeError \<and> grid st = None \<and> rendered st < length (PRODUCTS st) \<and> \<not> is_load ev"
proof (cases ev)
  case (Load res dv)
  with assms on_load_total[of P res dv st] show ?thesis by (auto simp: handle_def)
next
  case (Navigate page)
  with assms show ?thesis by (simp add: handle_def)
next
  case (Timeout dv)
  with assms initDataView_total[of P dv "st\<lparr>timers := timers st - 1\<rparr>"] show ?thesis
    by (auto simp: handle_def split: if_splits)
next
  case (Scroll dv near)
  with assms have "renderMore P st = Inl e"
    by (auto simp: handle_def onScroll_def split: if_splits option.splits)
  from renderMore_Inl[OF this] Scroll show ?thesis by simp
qed

lemma run_Inl: "handle P ev st = Inl e \<Longrightarrow> run P (ev # evs) st = (fst (run P evs st), e # snd (run P evs st))"
  by simp

lemma run_Inr: "handle P ev st = Inr s \<Longrightarrow> run P (ev # evs) st = run P evs s"
  by simp

subsection \<open>One step of a run\<close>

lemma initDataView_Inr:
  assumes "initDataView P dv st = Inr st'"
  shows "(initialized st \<longrightarrow> st' = st) \<and> rendered st \<le> rendered st' \<and> PRODUCTS st' = PRODUCTS st
         \<and> timers st' = timers st \<and> scroll_listener st' = scroll_listener st \<and> console st' = console st"
proof (cases "initialized st")
  case True
  with assms show ?thesis by (simp add: initDataView_latched)
next
  case False
  show ?thesis
  proof (cases dv)
    case None
    with assms show ?thesis by (simp add: initDataView_absent)
  next
    case (Some v)
    from initDataView_first[OF False, of P v] obtain s
      where s: "renderMore P (st\<lparr>grid := Some [], footerEl := Some (footer_found v)\<rparr>) = Inr s"
        and "initDataView P (Some v) st = Inr (s\<lparr>initialized := True\<rparr>)" by blast
    with assms Some have st': "st' = s\<lparr>initialized := True\<rparr>" by simp
    from renderMore_Inr[OF s] False show ?thesis by (simp add: st')
  qed
qed

lemma handle_forward:
  assumes "handle P ev st = Inr st'"
  shows "(initialized st \<longrightarrow> initialized st') \<and> rendered st \<le> rendered st'
         \<and> (initialized st \<longrightarrow> (\<forall>g. grid st = Some g \<longrightarrow> (\<exists>more. grid st' = Some (g @ more))))"
proof (cases ev)
  case (Load res dv)
  define st1 where "st1 = (case loadProducts P res of
                   Inl err \<Rightarrow> st\<lparr>PRODUCTS := [], console := console st @ [err]\<rparr>
                 | Inr ps \<Rightarrow> st\<lparr>PRODUCTS := ps\<rparr>)"
  have st1: "initialized st1 = initialized st" "rendered st1 = rendered st" "grid st1 = grid st"
    by (simp_all add: st1_def split: sum.splits)
  define visible where "visible = (case dv of None \<Rightarrow> False | Some v \<Rightarrow> \<not> dv_hidden v)"
  obtain st2 where st2: "(if visible then initDataView P dv st1 else Inr st1) = Inr st2"
    using initDataView_total[of P dv st1] by (cases visible) auto
  with assms Load have st': "st' = st2\<lparr>scroll_listener := True\<rparr>"
    by (simp add: handle_def on_load_def st1_def[symmetric] visible_def[symmetric] Let_def)
  have "(initialized st1 \<longrightarrow> st2 = st1) \<and> rendered st1 \<le> rendered st2"
    using st2 initDataView_Inr[of P dv st1 st2] by (cases visible) auto
  with st1 show ?thesis by (auto simp: st')
next
  case (Navigate page)
  with assms show ?thesis by (auto simp: handle_def navigate_def)
next
  case (Timeout dv)
  show ?thesis
  proof (cases "timers st = 0")
    case True
    with assms Timeout show ?thesis by (simp add: handle_def)
  next
    case False
    with assms Timeout have "initDataView P dv (st\<lparr>timers := timers st - 1\<rparr>) = Inr st'"
      by (simp add: handle_def)
    from initDataView_Inr[OF this] show ?thesis by auto
  qed
next
  case (Scroll dv near)
  show ?thesis
  proof (cases "renderMore P st = Inr st'")
    case True
    from renderMore_Inr[OF True] show ?thesis by auto
  next
    case False
    with assms Scroll have "st' = st"
      by (auto simp: handle_def onScroll_def split: if_splits option.splits)
    then show ?thesis by simp
  qed
qed

lemma run_forward:
  "run P evs st = (st', errs) \<Longrightarrow>
     (initialized st \<longrightarrow> initialized st') \<and> rendered st \<le> rendered st'
     \<and> (initialized st \<longrightarrow> (\<forall>g. grid st = Some g \<longrightarrow> (\<exists>more. grid st' = Some (g @ more))))"
proof (induction evs arbitrary: st errs)
  case Nil
  then show ?case by simp
next
  case (Cons ev evs)
  show ?case
  proof (cases "handle P ev st")
    case (Inl e)
    with Cons.prems have "run P evs st = (st', snd (run P evs st))"
      by (simp add: prod_eq_iff)
    from Cons.IH[OF this] show ?thesis .
  next
    case (Inr s)
    with Cons.prems have "run P evs s = (st', errs)" by simp
    from Cons.IH[OF this] handle_forward[OF Inr] show ?thesis
      by (metis append.assoc le_trans)
  qed
qed

subsection \<open>The grid and the cursor\<close>

lemma take_more: "r \<le> r' \<Longrightarrow> take r ps @ take (r' - r) (drop r ps) = take r' ps"
  using take_add[of r "r' - r" ps] by simp

lemma renderMore_consistent:
  assumes "consistent P st" and "renderMore P st = Inr st'"
  shows "consistent P st'"
proof (cases "rendered st < length (PRODUCTS st)")
  case False
  with assms show ?thesis by (simp add: renderMore_noop)
next
  case True
  note R = renderMore_Inr[OF assms(2)]
  show ?thesis
  proof (cases "initialized st")
    case False
    with assms(1) have "grid st = None" by (simp add: consistent_def)
    with R have "st' = st" by simp
    with assms(1) show ?thesis by simp
  next
    case init: True
    with assms(1) have g: "grid st = Some (map (createCard P) (take (rendered st) (PRODUCTS st)))"
      and f: "footerEl st \<noteq> None" by (simp_all add: consistent_def)
    from R g have "grid st' = Some (map (createCard P) (take (rendered st) (PRODUCTS st))
        @ map (createCard P) (take (rendered st' - rendered st) (drop (rendered st) (PRODUCTS st))))"
      by simp
    also have "\<dots> = Some (map (createCard P) (take (rendered st') (PRODUCTS st)))"
      using R take_more[of "rendered st" "rendered st'" "PRODUCTS st"]
      by (simp add: map_append[symmetric] del: map_append)
    finally have "grid st' = Some (map (createCard P) (take (rendered st') (PRODUCTS st')))"
      using R by simp
    with R True init f show ?thesis by (simp add: consistent_def)
  qed
qed

lemma initDataView_consistent:
  assumes "consistent P st" and "initDataView P dv st = Inr st'"
  shows "consistent P st'"
proof (cases "initialized st")
  case True
  with assms show ?thesis by (simp add: initDataView_latched)
next
  case False
  show ?thesis
  proof (cases dv)
    case None
    with assms show ?thesis by (simp add: initDataView_absent)
  next
    case (Some v)
    define s0 where "s0 = st\<lparr>grid := Some [], footerEl := Some (footer_found v)\<rparr>"
    from initDataView_first[OF False, of P v] obtain s
      where s: "renderMore P s0 = Inr s"
        and "initDataView P (Some v) st = Inr (s\<lparr>initialized := True\<rparr>)"
      unfolding s0_def by blast
    with assms Some have st': "st' = s\<lparr>initialized := True\<rparr>" by simp
    from assms(1) False have r0: "rendered st = 0" by (simp add: consistent_def)
    note R = renderMore_Inr[OF s]
    have le: "rendered s \<le> length (PRODUCTS s)"
    proof (cases "rendered s0 < length (PRODUCTS s0)")
      case True
      with R show ?thesis by simp
    next
      case False
      with s have "s = s0" by (simp add: renderMore_noop)
      with r0 show ?thesis by (simp add: s0_def)
    qed
    from R r0 have "grid s = Some (map (createCard P) (take (rendered s) (PRODUCTS s)))"
      by (simp add: s0_def)
    moreover from R have "footerEl s \<noteq> None" by (simp add: s0_def)
    ultimately show ?thesis using le by (simp add: consistent_def st')
  qed
qed

lemma handle_consistent:
  assumes "consistent P st" and "handle P ev st = Inr st'" and "is_load ev \<longrightarrow> PRODUCTS st = []"
  shows "consistent P st' \<and> (\<not> is_load ev \<longrightarrow> PRODUCTS st' = PRODUCTS st)"
proof (cases ev)
  case (Load res dv)
  define st1 where "st1 = (case loadProducts P res of
                   Inl err \<Rightarrow> st\<lparr>PRODUCTS := [], console := console st @ [err]\<rparr>
                 | Inr ps \<Rightarrow> st\<lparr>PRODUCTS := ps\<rparr>)"
  from assms(3) Load have empty: "PRODUCTS st = []" by simp
  with assms(1) have "rendered st = 0" by (simp add: consistent_def)
  with assms(1) empty have c1: "consistent P st1"
    by (auto simp: consistent_def st1_def split: sum.splits if_splits)
  define visible where "visible = (case dv of None \<Rightarrow> False | Some v \<Rightarrow> \<not> dv_hidden v)"
  obtain st2 where st2: "(if visible then initDataView P dv st1 else Inr st1) = Inr st2"
    using initDataView_total[of P dv st1] by (cases visible) auto
  with assms(2) Load have st': "st' = st2\<lparr>scroll_listener := True\<rparr>"
    by (simp add: handle_def on_load_def st1_def[symmetric] visible_def[symmetric] Let_def)
  have "consistent P st2"
    using st2 c1 initDataView_consistent[of P st1 dv st2] by (cases visible) auto
  then show ?thesis using Load by (simp add: consistent_def st')
next
  case (Navigate page)
  with assms have "st' = st \<or> st' = st\<lparr>timers := Suc (timers st)\<rparr>"
    by (auto simp: handle_def navigate_def)
  with assms(1) show ?thesis by (auto simp: consistent_def)
next
  case (Timeout dv)
  show ?thesis
  proof (cases "timers st = 0")
    case True
    with assms Timeout show ?thesis by (simp add: handle_def)
  next
    case False
    with assms Timeout have i: "initDataView P dv (st\<lparr>timers := timers st - 1\<rparr>) = Inr st'"
      by (simp add: handle_def)
    from assms(1) have "consistent P (st\<lparr>timers := timers st - 1\<rparr>)"
      by (simp add: consistent_def)
    from initDataView_consistent[OF this i] initDataView_Inr[OF i] Timeout show ?thesis by simp
  qed
next
  case (Scroll dv near)
  show ?thesis
  proof (cases "renderMore P st = Inr st'")
    case True
    from renderMore_consistent[OF assms(1) True] renderMore_Inr[OF True] show ?thesis by simp
  next
    case False
    with assms Scroll have "st' = st"
      by (auto simp: handle_def onScroll_def split: if_splits option.splits)
    with assms(1) show ?thesis by simp
  qed
qed

lemma run_consistent:
  assumes "consistent P st"
    and "load_count evs = 0 \<or> (PRODUCTS st = [] \<and> load_count evs \<le> 1)"
    and "run P evs st = (st', errs)"
  shows "consistent P st'"
  using assms
proof (induction evs arbitrary: st errs)
  case Nil
  then show ?case by simp
next
  case (Cons ev evs)
  show ?case
  proof (cases "handle P ev st")
    case (Inl e)
    from handle_Inl[OF Inl] have "\<not> is_load ev" by simp
    with Cons.prems(2) have c: "load_count evs = 0 \<or> (PRODUCTS st = [] \<and> load_count evs \<le> 1)"
      by (simp add: load_count_def)
    from Inl Cons.prems(3) have "run P evs st = (st', snd (run P evs st))"
      by (simp add: prod_eq_iff)
    from Cons.IH[OF Cons.prems(1) c this] show ?thesis .
  next
    case (Inr s)
    with Cons.prems(3) have r: "run P evs s = (st', errs)" by simp
    from Cons.prems(2) have l: "is_load ev \<longrightarrow> PRODUCTS st = []"
      by (auto simp: load_count_def)
    from handle_consistent[OF Cons.prems(1) Inr l]
    have cs: "consistent P s" and ps: "\<not> is_load ev \<longrightarrow> PRODUCTS s = PRODUCTS st" by simp_all
    have c: "load_count evs = 0 \<or> (PRODUCTS s = [] \<and> load_count evs \<le> 1)"
      using Cons.prems(2) ps by (cases "is_load ev") (auto simp: load_count_def)
    from Cons.IH[OF cs c r] show ?thesis .
  qed
qed

lemma consistent_initial: "consistent P initial_state"
  by (simp add: consistent_def initial_state_def)

subsection \<open>Runs without a catalog\<close>

lemma loadProducts_failed: "failed res \<Longrightarrow> \<exists>err. loadProducts P res = Inl err"
  by (cases res) (simp_all add: loadProducts_def)

lemma initDataView_empty:
  assumes "PRODUCTS st = []"
  shows "initDataView P dv st =
     Inr (if initialized st then st
          else case dv of
                 None \<Rightarrow> st
               | Some v \<Rightarrow> st\<lparr>grid := Some [], footerEl := Some (footer_found v), initialized := True\<rparr>)"
  using assms by (simp add: initDataView_def renderMore_empty split: option.splits)

lemma on_load_failed:
  assumes "loadProducts P res = Inl err"
  shows "\<exists>st'. on_load P res dv st = Inr st' \<and> PRODUCTS st' = [] \<and> console st' = console st @ [err]
           \<and> rendered st' = rendered st
           \<and> (grid st' = grid st \<or> grid st' = Some [])
           \<and> (footerEl st' = footerEl st \<or> (\<exists>v \<in> set (views (Load res dv)). footerEl st' = Some (footer_found v)))"
proof -
  define st1 where "st1 = st\<lparr>PRODUCTS := [], console := console st @ [err]\<rparr>"
  have e: "PRODUCTS st1 = []" by (simp add: st1_def)
  show ?thesis
    using assms initDataView_empty[OF e, of P dv]
    by (cases dv) (auto simp: on_load_def Let_def st1_def)
qed

lemma handle_failing:
  assumes "PRODUCTS st = []" and "failing ev"
  shows "\<exists>st'. handle P ev st = Inr st' \<and> PRODUCTS st' = [] \<and> rendered st' = rendered st
           \<and> (grid st' = grid st \<or> grid st' = Some [])
           \<and> (footerEl st' = footerEl st \<or> (\<exists>v \<in> set (views ev). footerEl st' = Some (footer_found v)))
           \<and> length (console st') = length (console st) + (if is_load ev then 1 else 0)"
proof (cases ev)
  case (Load res dv)
  with assms(2) obtain err where "loadProducts P res = Inl err"
    using loadProducts_failed by auto
  from on_load_failed[OF this, of dv st] Load show ?thesis
    by (auto simp: handle_def)
next
  case (Navigate page)
  with assms(1) show ?thesis by (simp add: handle_def navigate_def)
next
  case (Timeout dv)
  have e: "PRODUCTS (st\<lparr>timers := timers st - 1\<rparr>) = []" using assms(1) by simp
  show ?thesis
    using Timeout assms(1) initDataView_empty[OF e, of P dv]
    by (cases dv) (auto simp: handle_def)
next
  case (Scroll dv near)
  with assms(1) show ?thesis
    by (auto simp: handle_def onScroll_def renderMore_empty split: option.splits)
qed

lemma run_failing:
  assumes "PRODUCTS st = []" and "list_all failing evs" and "run P evs st = (st', errs)"
  shows "errs = [] \<and> PRODUCTS st' = [] \<and> rendered st' = rendered st
         \<and> (grid st' = grid st \<or> grid st' = Some [])
         \<and> (footerEl st' = footerEl st
             \<or> (\<exists>v \<in> set (concat (map views evs)). footerEl st' = Some (footer_found v)))
         \<and> length (console st') = length (console st) + load_count evs"
  using assms
proof (induction evs arbitrary: st)
  case Nil
  then show ?case by (simp add: load_count_def)
next
  case (Cons ev evs)
  from Cons.prems(2) have f: "failing ev" and fs: "list_all failing evs" by simp_all
  from handle_failing[OF Cons.prems(1) f, of P] obtain s where s: "handle P ev st = Inr s"
    and p: "PRODUCTS s = []" and r: "rendered s = rendered st"
    and g: "grid s = grid st \<or> grid s = Some []"
    and ft: "footerEl s = footerEl st \<or> (\<exists>v \<in> set (views ev). footerEl s = Some (footer_found v))"
    and c: "length (console s) = length (console st) + (if is_load ev then 1 else 0)"
    by blast
  from s Cons.prems(3) have "run P evs s = (st', errs)" by simp
  from Cons.IH[OF p fs this]
  have "errs = []" "PRODUCTS st' = []" "rendered st' = rendered s"
    "grid st' = grid s \<or> grid st' = Some []"
    "footerEl st' = footerEl s \<or> (\<exists>v \<in> set (concat (map views evs)). footerEl st' = Some (footer_found v))"
    "length (console st') = length (console s) + load_count evs"
    by simp_all
  with r g ft c show ?case
    by (auto simp: load_count_def)
qed

subsection \<open>A run on the example catalog\<close>

lemma example_run_load:
  "handle P (Load (Response True example_catalog) (Some hidden_view)) initial_state =
     Inr (initial_state\<lparr>PRODUCTS := example_rows, scroll_listener := True\<rparr>)"
  by (simp add: handle_def on_load_def example_load hidden_view_def initial_state_def)

lemma example_run:
  "run P [Load (Response True example_catalog) (Some hidden_view), Navigate (str ''data'')] initial_state =
     (initial_state\<lparr>PRODUCTS := example_rows, scroll_listener := True, timers := 1\<rparr>, [])"
  by (simp add: example_run_load) (simp add: handle_def navigate_def initial_state_def)



subsection \<open>Numeric literals, evaluated\<close>

lemmas exponent_eval =
  binary_exponent_def bit_length_numeral bit_length_0 bit_length_Suc_0
  floor_rat_numeral_div floor_rat_one_div Let_def

lemmas double_eval =
  round_double_def round_half_even_def pow2_def floor_rat_numeral_div floor_rat_one_div Let_def

lemma shortest_from_numeral:
  "shortest_from x n0 k (numeral f) =
     (case digit_candidates x k n0 @ digit_candidates x k (n0 + 1) of
        [] \<Rightarrow> shortest_from x n0 (Suc k) (pred_numeral f)
      | c # _ \<Rightarrow> Some c)"
  by (simp add: numeral_eq_Suc)

lemma DecimalDigits_21: "DecimalDigits (str ''21'') = Some 21"
  by (simp add: str_def ch_def DecimalDigits_def radix_digits_def radix_value_def digit_value_def)

lemma literal_1e21: "StrUnsignedDecimalLiteral (str ''1e21'') = round_double 1000000000000000000000"
  by (simp add: str_def ch_def StrUnsignedDecimalLiteral_def is_digit_def ExponentPart_def
      SignedInteger_def DecimalDigits_21[unfolded str_def ch_def, simplified]
      radix_value_def digit_value_def pow10_def Let_def)

lemma exponent_1e21: "binary_exponent 1000000000000000000000 = 69"
  by (simp add: exponent_eval)

lemma round_1e21: "round_double 1000000000000000000000 = Num 1000000000000000000000"
  by (simp add: exponent_1e21 double_eval)

lemma Number_1e21: "StringToNumber (str ''1e21'') = Num 1000000000000000000000"
  by (simp add: str_def ch_def StringToNumber_def trim_def is_space_def NonDecimalIntegerLiteral_def
      literal_1e21[unfolded str_def ch_def, simplified] round_1e21)

lemma dec_1e21: "length (dec 1000000000000000000000) = 22"
  by (simp add: dec_step dec_digit)

lemma exponent_2e21: "binary_exponent 2000000000000000000000 = 70"
  by (simp add: exponent_eval)

lemma round_2e21: "round_double 2000000000000000000000 = Num 2000000000000000000000"
  by (simp add: exponent_2e21 double_eval)

lemma candidates_1e21: "digit_candidates 1000000000000000000000 (Suc 0) 22 = [(Suc 0, 22)]"
  by (simp add: digit_candidates_def pow10_def round_1e21 round_2e21 floor_rat_numeral_div Let_def)

lemma shortest_1e21: "shortest_digits 1000000000000000000000 = Some (1, 22)"
  by (simp add: shortest_digits_def dec_1e21 shortest_from_numeral candidates_1e21)

lemma toString_1e21: "toString_large 1000000000000000000000 = str ''1e+21''"
  by (simp add: str_def ch_def toString_large_def shortest_1e21 dec_digit dec_two digit_char_def)

lemma toFixed_1e21: "toFixed 2 (Num 1000000000000000000000) = str ''1e+21''"
  by (simp add: toFixed_def toString_1e21)

lemma stripped_1e21: "stripped (str ''1e21'') = str ''1e21''"
  by (simp add: str_def ch_def stripped_def remove_all_def trim_def is_space_def)

lemma formatPrice_1e21: "formatPrice (Some (str ''1e21'')) = str ''$1e+21''"
  by (simp add: formatPrice_def stripped_def[symmetric] stripped_1e21 Number_1e21 toFixed_1e21)
    (simp add: str_def)

subsection \<open>Two decimal digits\<close>

lemma digit_char_cases:
  assumes "d < 10"
  shows "is_digit (digit_char d) \<and> digit_value (digit_char d) = d"
proof -
  from assms have "d \<in> {0, 1, 2, 3, 4, 5, 6, 7, 8, 9}" by auto
  then show ?thesis
    by (auto simp: str_def ch_def digit_char_def is_digit_def digit_value_def)
qed

lemma radix_value_snoc: "radix_value b (xs @ [c]) = b * radix_value b xs + digit_value c"
  by (simp add: radix_value_def)

lemma dec_digits: "list_all is_digit (dec n) \<and> radix_value 10 (dec n) = n"
proof (induction n rule: dec.induct)
  case (1 n)
  show ?case
  proof (cases "n < 10")
    case True
    with digit_char_cases[of n] show ?thesis
      by (simp add: dec_digit radix_value_def)
  next
    case False
    then have step: "dec n = dec (n div 10) @ [digit_char (n mod 10)]"
      by (simp add: dec_step)
    have "n mod 10 < 10" by simp
    from digit_char_cases[OF this] 1[OF False] show ?thesis
      by (simp add: step radix_value_snoc)
  qed
qed

lemma two_decimals_digits:
  "\<exists>ds a b. two_decimals n = ds @ str ''.'' @ [a, b] \<and> ds \<noteq> []
      \<and> list_all is_digit (ds @ [a, b]) \<and> radix_value 10 (ds @ [a, b]) = n"
proof -
  have a: "n div 10 mod 10 < 10" and b: "n mod 10 < 10" by simp_all
  have "radix_value 10 (dec (n div 100) @ [digit_char (n div 10 mod 10), digit_char (n mod 10)]) =
      10 * (10 * (n div 100) + n div 10 mod 10) + n mod 10"
    using radix_value_snoc[of 10 "dec (n div 100) @ [digit_char (n div 10 mod 10)]" "digit_char (n mod 10)"]
      radix_value_snoc[of 10 "dec (n div 100)" "digit_char (n div 10 mod 10)"]
      digit_char_cases[OF a] digit_char_cases[OF b] dec_digits[of "n div 100"]
    by simp
  also have "\<dots> = n"
  proof -
    have "n div 100 = n div 10 div 10" by (simp add: div_mult2_eq[symmetric])
    then have "10 * (n div 100) + n div 10 mod 10 = n div 10" by simp
    then show ?thesis by simp
  qed
  finally have v: "radix_value 10 (dec (n div 100) @ [digit_char (n div 10 mod 10), digit_char (n mod 10)]) = n" .
  have "list_all is_digit (dec (n div 100) @ [digit_char (n div 10 mod 10), digit_char (n mod 10)])"
    using digit_char_cases[OF a] digit_char_cases[OF b] dec_digits[of "n div 100"] by simp
  with v dec_nonempty[of "n div 100"] show ?thesis
    unfolding two_decimals_def by blast
qed

lemma nearest_hundredth:
  fixes a :: rat
  assumes "0 \<le> a"
  shows "\<bar>of_nat (nat \<lfloor>a * 100 + 1 / 2\<rfloor>) / 100 - a\<bar> \<le> 1 / 200"
proof -
  define f where "f = \<lfloor>a * 100 + 1 / 2\<rfloor>"
  have "0 \<le> f" using assms by (simp add: f_def)
  then have n: "(of_nat (nat f) :: rat) = of_int f" by simp
  have lo: "of_int f \<le> a * 100 + 1 / 2" and hi: "a * 100 + 1 / 2 < of_int f + 1"
    unfolding f_def by linarith+
  from lo have "of_int f / 100 - a \<le> 1 / 200" by linarith
  moreover from hi have "- (of_int f / 100 - a) \<le> 1 / 200" by linarith
  ultimately have "\<bar>of_int f / 100 - a\<bar> \<le> 1 / 200"
    unfolding abs_le_iff by (rule conjI)
  then show ?thesis
    unfolding f_def[symmetric] n .
qed

lemma formatPrice_two_decimals:
  assumes "StringToNumber (stripped raw) = Num q" and "\<bar>q\<bar> < 10 ^ 21"
  shows "formatPrice (Some raw) =
           str ''$'' @ (if q < 0 then str ''-'' else []) @ two_decimals (nat \<lfloor>\<bar>q\<bar> * 100 + 1 / 2\<rfloor>)
         \<and> \<bar>of_nat (nat \<lfloor>\<bar>q\<bar> * 100 + 1 / 2\<rfloor>) / 100 - \<bar>q\<bar>\<bar> \<le> 1 / 200"
  using assms nearest_hundredth[of "\<bar>q\<bar>"]
  by (simp add: formatPrice_def stripped_def[symmetric] toFixed_2 Let_def)

subsection \<open>The specification's price example\<close>

lemma stripped_1234: "stripped (str ''1,234.5'') = str ''1234.5''"
  by (simp add: str_def ch_def stripped_def remove_all_def trim_def is_space_def)

lemma literal_1234: "StrUnsignedDecimalLiteral (str ''1234.5'') = round_double (2469 / 2)"
  by (simp add: str_def ch_def StrUnsignedDecimalLiteral_def is_digit_def ExponentPart_def
      radix_value_def digit_value_def pow10_def Let_def)

lemma exponent_1234: "binary_exponent (2469 / 2) = 10"
  by (simp add: exponent_eval)

lemma round_1234: "round_double (2469 / 2) = Num (2469 / 2)"
  by (simp add: exponent_1234 double_eval)

lemma Number_1234: "StringToNumber (str ''1234.5'') = Num (2469 / 2)"
  by (simp add: str_def ch_def StringToNumber_def trim_def is_space_def NonDecimalIntegerLiteral_def
      literal_1234[unfolded str_def ch_def, simplified] round_1234)

lemma formatPrice_1234: "formatPrice (Some (str ''1,234.5'')) = str ''$1234.50''"
proof -
  have "StringToNumber (stripped (str ''1,234.5'')) = Num (2469 / 2)"
    by (simp add: stripped_1234 Number_1234)
  from formatPrice_two_decimals[OF this] show ?thesis
    by (simp add: str_def ch_def two_decimals_def dec_step dec_digit digit_char_def floor_rat_numeral_div)
qed

section \<open>Price formatting: the fallback\<close>

text \<open>
  C1, as the code has it. \<^verbatim>\<open>formatPrice\<close> returns \<^verbatim>\<open>$0.00\<close> for \<^verbatim>\<open>null\<close> and
  \<^verbatim>\<open>undefined\<close>. For a raw string whose stripped content does not give a finite number
  (\<^verbatim>\<open>Number\<close> gives \<^verbatim>\<open>NaN\<close>, as for every text that is not a numeric literal, or an
  infinity) it returns \<^verbatim>\<open>$\<close> followed by the stripped content verbatim. The empty
  stripped content is not such a string: \<^verbatim>\<open>Number("")\<close> is 0, and the result is
  \<^verbatim>\<open>$0.00\<close>. A non-empty stripped content that starts with a character other than a
  digit, a sign, a point or the letter I is never a numeric literal.
\<close>

theorem formatPrice_fallback:
  "formatPrice None = str ''$0.00''
   \<and> (\<not> isFinite (StringToNumber (stripped raw)) \<longrightarrow> formatPrice (Some raw) = str ''$'' @ stripped raw)
   \<and> (stripped raw = [] \<longrightarrow> formatPrice (Some raw) = str ''$0.00'')
   \<and> (stripped raw \<noteq> [] \<and> hd (stripped raw) \<notin> set (str ''0123456789+-.I'')
        \<longrightarrow> StringToNumber (stripped raw) = NaN)"
proof (intro conjI impI)
  show "formatPrice None = str ''$0.00''"
    by (simp add: formatPrice_def)
  show "formatPrice (Some raw) = str ''$'' @ stripped raw" if "\<not> isFinite (StringToNumber (stripped raw))"
    using that by (simp add: formatPrice_def stripped_def Let_def)
  show "formatPrice (Some raw) = str ''$0.00''" if "stripped raw = []"
  proof -
    have "StringToNumber [] = Num 0"
      by (simp add: StringToNumber_def trim_Nil)
    with that show ?thesis
      by (simp add: formatPrice_def stripped_def[symmetric] toFixed_2_zero Let_def) (simp add: str_def)
  qed
  show "StringToNumber (stripped raw) = NaN"
    if "stripped raw \<noteq> [] \<and> hd (stripped raw) \<notin> set (str ''0123456789+-.I'')"
    using that by (intro StringToNumber_NaN trim_stripped) auto
qed

text \<open>
  The theorem at \<^verbatim>\<open>"N/A"\<close>, at the same text with dollar signs, commas and white space
  (a space in front, a space and a no-break space behind), and at the empty string.
\<close>

theorem formatPrice_fallback_witness:
  "formatPrice (Some (str ''N/A'')) = str ''$N/A''
   \<and> formatPrice (Some example_padded_price) = str ''$N/A''
   \<and> formatPrice (Some []) = str ''$0.00''"
proof -
  note na = formatPrice_fallback[of "str ''N/A''"]
  note pd = formatPrice_fallback[of example_padded_price]
  note em = formatPrice_fallback[of "[]"]
  have h: "stripped (str ''N/A'') \<noteq> [] \<and> hd (stripped (str ''N/A'')) \<notin> set (str ''0123456789+-.I'')"
    by (simp add: stripped_NA) (simp add: str_def ch_def)
  have "StringToNumber (stripped (str ''N/A'')) = NaN"
    by (rule mp[OF conjunct2[OF conjunct2[OF conjunct2[OF na]]] h])
  then have nf: "\<not> isFinite (StringToNumber (stripped (str ''N/A'')))"
    by simp
  have "formatPrice (Some (str ''N/A'')) = str ''$'' @ stripped (str ''N/A'')"
    by (rule mp[OF conjunct1[OF conjunct2[OF na]] nf])
  moreover have "formatPrice (Some example_padded_price) = str ''$'' @ stripped example_padded_price"
    by (rule mp[OF conjunct1[OF conjunct2[OF pd]]]) (simp only: stripped_padded nf[unfolded stripped_NA] not_False_eq_True)
  moreover have "formatPrice (Some []) = str ''$0.00''"
    by (rule mp[OF conjunct1[OF conjunct2[OF conjunct2[OF em]]] stripped_Nil])
  ultimately show ?thesis
    by (simp add: stripped_NA stripped_padded) (simp add: str_def)
qed

text \<open>
  C1 as the specification words it fails at the empty string: the claim promises the bare
  \<^verbatim>\<open>$\<close>, the code returns \<^verbatim>\<open>$0.00\<close>.
\<close>

theorem formatPrice_empty_counterexample:
  "stripped [] = [] \<and> formatPrice (Some []) = str ''$0.00'' \<and> formatPrice (Some []) \<noteq> str ''$'' @ stripped []"
  by (simp add: stripped_Nil formatPrice_empty) (simp add: str_def)

section \<open>Identifiers of the loaded records\<close>

text \<open>
  C3. The records \<^verbatim>\<open>loadProducts\<close> produces carry the identifiers 1, 2, ..., k in order.
  They are the accepted rows of the data lines (the non-empty lines, without the first
  one when it is a header), each parsed on its own and numbered in order; a row is
  rejected exactly when it has fewer than three tab-delimited columns or no bracketed
  name that is non-empty after trimming, and a rejected row takes no identifier.
\<close>

theorem loadProducts_ids_dense:
  assumes "loadProducts P (Response True body) = Inr out"
  shows "map id_num out = [1 ..< Suc (length out)]
         \<and> (\<exists>skip \<le> 1. out = renumber (accepted_rows P (drop skip (filter (\<lambda>l. l \<noteq> []) (split_lines body)))))
         \<and> (\<forall>line i. parseRow P line i = None \<longleftrightarrow> rejected line)"
proof -
  define lines where "lines = filter (\<lambda>l. l \<noteq> []) (split_lines body)"
  have "\<exists>skip \<le> 1. out = renumber (accepted_rows P (drop skip lines))"
  proof (cases "lines = []")
    case True
    with assms have "out = []"
      by (simp add: loadProducts_def lines_def)
    with True have "out = renumber (accepted_rows P (drop 0 lines))"
      by (simp add: renumber_def accepted_rows_def)
    then show ?thesis by blast
  next
    case False
    define skip :: nat where "skip = (if starts_with_bracket (lines ! 0) then 0 else 1)"
    from False assms have "out = parse_rows P (drop skip lines) []"
      by (simp add: loadProducts_def lines_def[symmetric] skip_def Let_def)
    then have "out = renumber (accepted_rows P (drop skip lines))"
      by (simp add: parse_rows_renumber)
    moreover have "skip \<le> 1" by (simp add: skip_def)
    ultimately show ?thesis by blast
  qed
  then obtain skip where skip: "skip \<le> 1" "out = renumber (accepted_rows P (drop skip lines))"
    by blast
  then have "map id_num out = [1 ..< Suc (length out)]"
    by (simp add: id_num_renumber length_renumber)
  with skip show ?thesis
    unfolding lines_def using parseRow_None_iff by blast
qed

text \<open>
  The theorem on the example catalog: the row with two columns and the row with a blank
  name are dropped, and the rows around them are numbered 1 and 2. The header line has
  three columns and no bracketed name: it would be rejected as a row, too.
\<close>

theorem loadProducts_ids_dense_witness:
  "(\<exists>out. loadProducts example_host (Response True example_catalog) = Inr out
          \<and> map name out = [str ''Lamp'', str ''Desk''] \<and> map id_num out = [1, 2])
   \<and> rejected example_broken_line \<and> rejected example_blank_line \<and> rejected example_header_line
   \<and> \<not> rejected example_lamp_line \<and> \<not> rejected example_desk_line"
proof -
  have h: "loadProducts example_host (Response True example_catalog) = Inr example_rows"
    by (rule example_load)
  note t = loadProducts_ids_dense[OF h]
  from t have "map id_num example_rows = [1 ..< Suc (length example_rows)]"
    by blast
  then have "map id_num example_rows = [1, 2]"
    by (simp add: example_rows_def upt_rec)
  moreover have "map name example_rows = [str ''Lamp'', str ''Desk'']"
    by (simp add: example_rows_def)
  moreover from t have r: "\<And>line. rejected line \<longleftrightarrow> parseRow example_host line 0 = None"
    by blast
  ultimately show ?thesis
    using h
    by (simp add: r example_row_Broken example_row_Blank example_row_Header example_row_Lamp
        example_row_Desk)
qed

section \<open>Header detection\<close>

text \<open>
  C8. The body is split at every LF, a CR directly before the LF going with it: the
  pieces hold no LF, they give the body back when joined by the separators LF and CR LF,
  and a piece in front of a bare LF does not end in CR. The blank lines that
  \<^verbatim>\<open>filter(Boolean)\<close> discards are the empty pieces. When no line is left the result is
  empty; otherwise the first line is skipped exactly when it does not begin with an
  opening bracket after optional white space, and every remaining line goes to the row
  parser.
\<close>

theorem loadProducts_header:
  "loadProducts P (Response True body) =
     Inr (let lines = filter (\<lambda>l. l \<noteq> []) (split_lines body)
          in if lines = [] then []
             else parse_rows P (if begins_with_bracket (hd lines) then lines else tl lines) [])
   \<and> (\<forall>l \<in> set (split_lines body). LF \<notin> set l)
   \<and> (\<exists>seps. length (split_lines body) = Suc (length seps)
             \<and> set seps \<subseteq> {[LF], [CR, LF]}
             \<and> join_pieces (split_lines body) seps = body
             \<and> (\<forall>i < length seps. seps ! i = [LF] \<longrightarrow>
                   split_lines body ! i = [] \<or> last (split_lines body ! i) \<noteq> CR))"
proof -
  define lines where "lines = filter (\<lambda>l. l \<noteq> []) (split_lines body)"
  have "loadProducts P (Response True body) =
     Inr (if lines = [] then []
          else parse_rows P (if begins_with_bracket (hd lines) then lines else tl lines) [])"
  proof (cases lines)
    case Nil
    then show ?thesis
      by (simp add: loadProducts_def lines_def[symmetric])
  next
    case (Cons l ls)
    then show ?thesis
      by (simp add: loadProducts_def lines_def[symmetric] starts_with_bracket_iff Let_def)
  qed
  then show ?thesis
    using split_lines_no_LF[of _ body] split_lines_boundaries[of body]
    by (simp add: lines_def Let_def)
qed

text \<open>
  The theorem on the example catalog, whose first line is a header, on a catalog of one
  line that starts with a bracket, and on a catalog of one line that has a space and a
  no-break space in front of the bracket: the first catalog loses its first line, the
  other two keep theirs as a data row.
\<close>

theorem loadProducts_header_witness:
  "loadProducts example_host (Response True example_catalog) = Inr example_rows
   \<and> loadProducts example_host (Response True example_lamp_line) = Inr [hd example_rows]
   \<and> loadProducts example_host (Response True example_indented_line) = Inr [hd example_rows]
   \<and> split_lines example_catalog =
       [example_header_line, example_lamp_line, example_broken_line, [], example_blank_line,
        example_desk_line]"
proof -
  have b: "begins_with_bracket example_lamp_line"
    by (simp add: starts_with_bracket_iff[symmetric] example_lamp_bracket)
  have c: "begins_with_bracket example_indented_line"
    by (simp add: starts_with_bracket_iff[symmetric] example_indented_bracket)
  have d: "\<not> begins_with_bracket example_header_line"
    by (simp add: starts_with_bracket_iff[symmetric] example_header)
  have "loadProducts example_host (Response True example_lamp_line) = Inr [hd example_rows]"
    using loadProducts_header[of example_host example_lamp_line] b
    by (simp add: example_lamp_alone example_row_Lamp example_rows_def)
  moreover have "loadProducts example_host (Response True example_indented_line) = Inr [hd example_rows]"
    using loadProducts_header[of example_host example_indented_line] c
    by (simp add: example_indented_alone example_row_Indented example_rows_def)
  moreover have "loadProducts example_host (Response True example_catalog) = Inr example_rows"
    using loadProducts_header[of example_host example_catalog] d
    by (simp add: example_lines example_row_Lamp example_row_Broken example_row_Blank
        example_row_Desk example_rows_def)
  moreover have "split_lines example_catalog =
       [example_header_line, example_lamp_line, example_broken_line, [], example_blank_line,
        example_desk_line]"
    by (simp add: str_def ch_def example_catalog_def example_line_defs TAB_def LF_def CR_def NBSP_def)
  ultimately show ?thesis by blast
qed

section \<open>Category\<close>



section \<open>Link rewriting\<close>

text \<open>
  C4. When the host parses the link as a URL, \<^verbatim>\<open>updateRef\<close> returns the serialisation of
  that URL with its query changed by \<^verbatim>\<open>searchParams.set("ref", "100201678")\<close>; when the
  parser throws, it returns the link unchanged. After the change the query has exactly
  one pair named \<^verbatim>\<open>ref\<close>, with the new value; the pairs of every other name are the
  same, in the same order; and the pairs before the first \<^verbatim>\<open>ref\<close> are the same, so an
  existing \<^verbatim>\<open>ref\<close> is overwritten in its place and a missing one is added at the end.
  A record's link is the rewritten link when the row has a non-empty one.
\<close>

theorem updateRef_sets_ref:
  "(case URL_new P link' of
      Inl err \<Rightarrow> updateRef P link' = link'
    | Inr u \<Rightarrow> updateRef P link' =
        URL_toString P (u\<lparr>searchParams := searchParams_set (str ''ref'') (str ''100201678'') (searchParams u)\<rparr>))
   \<and> filter (\<lambda>kv. fst kv = str ''ref'') (searchParams_set (str ''ref'') v ps) = [(str ''ref'', v)]
   \<and> filter (\<lambda>kv. fst kv \<noteq> str ''ref'') (searchParams_set (str ''ref'') v ps) = filter (\<lambda>kv. fst kv \<noteq> str ''ref'') ps
   \<and> takeWhile (\<lambda>kv. fst kv \<noteq> str ''ref'') (searchParams_set (str ''ref'') v ps) = takeWhile (\<lambda>kv. fst kv \<noteq> str ''ref'') ps
   \<and> (parseRow P line i = Some r \<longrightarrow>
        link r = (let l = trim (group_or_empty (ch CHR ''('') (ch CHR '')'') (first_column line))
                  in if l = [] then [] else updateRef P l))"
proof -
  have "case URL_new P link' of
      Inl err \<Rightarrow> updateRef P link' = link'
    | Inr u \<Rightarrow> updateRef P link' =
        URL_toString P (u\<lparr>searchParams := searchParams_set (str ''ref'') (str ''100201678'') (searchParams u)\<rparr>)"
    by (simp add: updateRef_def split: sum.splits)
  then show ?thesis
    using searchParams_set_own searchParams_set_others searchParams_set_before parseRow_link
    by blast
qed

text \<open>
  The theorem on the example host: the address it parses comes back with the new
  \<^verbatim>\<open>ref\<close> and its other parameter, and a string it does not parse comes back unchanged.
\<close>

theorem updateRef_sets_ref_witness:
  "updateRef example_host (str ''https://x.com/p?ref=OLD&x=1'') = str ''https://x.com/p?ref=100201678&x=1''
   \<and> updateRef example_host (str ''not a url'') = str ''not a url''"
proof -
  have a: "URL_new example_host (str ''https://x.com/p?ref=OLD&x=1'') = Inr example_url"
    by (simp add: str_def ch_def example_host_def)
  have b: "URL_new example_host (str ''not a url'') = Inl TypeError"
    by (simp add: str_def ch_def example_host_def)
  have "updateRef example_host (str ''https://x.com/p?ref=OLD&x=1'') =
      URL_toString example_host
        (example_url\<lparr>searchParams := searchParams_set (str ''ref'') (str ''100201678'') (searchParams example_url)\<rparr>)"
    using updateRef_sets_ref[of example_host "str ''https://x.com/p?ref=OLD&x=1''"] a by simp
  moreover have "updateRef example_host (str ''not a url'') = str ''not a url''"
    using updateRef_sets_ref[of example_host "str ''not a url''"] b by simp
  ultimately show ?thesis
    by (simp add: str_def ch_def example_host_def example_url_def)
qed

section \<open>Batches\<close>




section \<open>Scrolling before the initialisation\<close>

text \<open>
  C10. \<^verbatim>\<open>renderMore\<close> checks the record set only. In a state with records left to
  render and the grid still undefined it throws a \<^verbatim>\<open>TypeError\<close> at
  \<^verbatim>\<open>grid.appendChild\<close>. Such a state is reachable: the catalog is loaded while the view
  is hidden, the page navigates to the data view, which schedules \<^verbatim>\<open>initDataView\<close>, and
  a scroll near the bottom of the now visible view arrives before the timer fires. The
  run up to there raises nothing; the scroll handler fails.
\<close>

theorem renderMore_before_init_fails:
  "(rendered st < length (PRODUCTS st) \<and> grid st = None \<longrightarrow> renderMore P st = Inl TypeError)
   \<and> (\<exists>evs s. run P evs initial_state = (s, [])
          \<and> PRODUCTS s \<noteq> [] \<and> \<not> initialized s \<and> grid s = None
          \<and> scroll_listener s \<and> 0 < timers s
          \<and> handle P (Scroll (Some visible_view) True) s = Inl TypeError)"
proof
  show "rendered st < length (PRODUCTS st) \<and> grid st = None \<longrightarrow> renderMore P st = Inl TypeError"
    by (simp add: renderMore_undefined_grid)
next
  define s where "s = initial_state\<lparr>PRODUCTS := example_rows, scroll_listener := True, timers := 1\<rparr>"
  have r: "renderMore P s = Inl TypeError"
    by (rule renderMore_undefined_grid) (simp_all add: s_def initial_state_def example_rows_def)
  have "run P [Load (Response True example_catalog) (Some hidden_view), Navigate (str ''data'')] initial_state = (s, [])"
    by (simp only: example_run s_def)
  moreover have "PRODUCTS s \<noteq> [] \<and> \<not> initialized s \<and> grid s = None \<and> scroll_listener s \<and> 0 < timers s"
    by (simp add: s_def initial_state_def example_rows_def)
  moreover have "handle P (Scroll (Some visible_view) True) s = Inl TypeError"
    using r by (simp add: handle_def onScroll_def visible_view_def s_def)
  ultimately show "\<exists>evs s. run P evs initial_state = (s, [])
          \<and> PRODUCTS s \<noteq> [] \<and> \<not> initialized s \<and> grid s = None
          \<and> scroll_listener s \<and> 0 < timers s
          \<and> handle P (Scroll (Some visible_view) True) s = Inl TypeError"
    by blast
qed

text \<open>The theorem on the state the example run reaches.\<close>

theorem renderMore_before_init_fails_witness:
  "renderMore example_host (initial_state\<lparr>PRODUCTS := example_rows, scroll_listener := True, timers := 1\<rparr>)
     = Inl TypeError"
proof -
  have h: "rendered (initial_state\<lparr>PRODUCTS := example_rows, scroll_listener := True, timers := 1\<rparr>)
             < length (PRODUCTS (initial_state\<lparr>PRODUCTS := example_rows, scroll_listener := True, timers := 1\<rparr>))
           \<and> grid (initial_state\<lparr>PRODUCTS := example_rows, scroll_listener := True, timers := 1\<rparr>) = None"
    by (simp add: initial_state_def example_rows_def)
  show ?thesis
    using renderMore_before_init_fails[of
        "initial_state\<lparr>PRODUCTS := example_rows, scroll_listener := True, timers := 1\<rparr>" example_host] h
    by blast
qed

section \<open>The renderer moves one way\<close>

text \<open>
  C6. Once \<open>initialized\<close> is set, \<^verbatim>\<open>initDataView\<close> changes nothing, whatever the view
  looks like: a later activation neither clears the grid nor renders a card again. While
  it is not set, an activation that finds the view sets it. Over every run, from every
  state, the latch is never released, the cursor never goes back, and the cards of an
  initialised grid stay where they are, new ones coming behind them. A call of
  \<^verbatim>\<open>renderMore\<close> that has records left moves the cursor strictly forward, and not beyond
  the number of records. Over every run of a page, which starts in the initial state and
  has at most one \<^verbatim>\<open>load\<close> event, the cursor starts at 0, stays within the records, and
  the grid holds exactly the cards of the records before the cursor, each once.
\<close>

theorem renderer_one_way:
  "(initialized st \<longrightarrow> initDataView P dv st = Inr st)
   \<and> (\<not> initialized st \<longrightarrow> (\<exists>s. initDataView P (Some v) st = Inr s \<and> initialized s))
   \<and> (run P evs st = (st', errs) \<longrightarrow>
        (initialized st \<longrightarrow> initialized st')
        \<and> rendered st \<le> rendered st'
        \<and> (initialized st \<longrightarrow> (\<forall>g. grid st = Some g \<longrightarrow> (\<exists>more. grid st' = Some (g @ more)))))
   \<and> (rendered st < length (PRODUCTS st) \<and> renderMore P st = Inr st' \<longrightarrow>
        rendered st < rendered st' \<and> rendered st' \<le> length (PRODUCTS st))
   \<and> (run P evs initial_state = (st', errs) \<and> load_count evs \<le> 1 \<longrightarrow> consistent P st')"
proof (intro conjI impI)
  show "initDataView P dv st = Inr st" if "initialized st"
    using that by (rule initDataView_latched)
  show "\<exists>s. initDataView P (Some v) st = Inr s \<and> initialized s" if "\<not> initialized st"
    using initDataView_first[OF that, of P v] by auto
  show "initialized st'" if "run P evs st = (st', errs)" "initialized st"
    using run_forward[OF that(1)] that(2) by simp
  show "rendered st \<le> rendered st'" if "run P evs st = (st', errs)"
    using run_forward[OF that] by simp
  show "\<forall>g. grid st = Some g \<longrightarrow> (\<exists>more. grid st' = Some (g @ more))"
    if "run P evs st = (st', errs)" "initialized st"
    using run_forward[OF that(1)] that(2) by simp
  show "rendered st < rendered st'" if "rendered st < length (PRODUCTS st) \<and> renderMore P st = Inr st'"
    using that renderMore_Inr[of P st st'] by simp
  show "rendered st' \<le> length (PRODUCTS st)" if "rendered st < length (PRODUCTS st) \<and> renderMore P st = Inr st'"
    using that renderMore_Inr[of P st st'] by simp
  show "consistent P st'" if "run P evs initial_state = (st', errs) \<and> load_count evs \<le> 1"
  proof -
    have "load_count evs = 0 \<or> (PRODUCTS initial_state = [] \<and> load_count evs \<le> 1)"
      using that by (simp add: initial_state_def)
    from run_consistent[OF consistent_initial this] that show ?thesis by blast
  qed
qed

text \<open>
  The theorem on a run over the example catalog: the view is visible at the load, so the
  two records are rendered there, and a later navigation with its timer changes neither
  the cursor nor the grid.
\<close>

theorem renderer_one_way_witness:
  "\<exists>s errs. run example_host
        [Load (Response True example_catalog) (Some visible_view), Navigate (str ''data''),
         Timeout (Some visible_view)] initial_state = (s, errs)
      \<and> initialized s \<and> rendered s = 2 \<and> grid s = Some (map (createCard example_host) example_rows)"
proof -
  define evs where "evs = [Load (Response True example_catalog) (Some visible_view), Navigate (str ''data''),
         Timeout (Some visible_view)]"
  obtain s errs where run: "run example_host evs initial_state = (s, errs)"
    by (cases "run example_host evs initial_state") auto
  have lc: "load_count evs \<le> 1"
    by (simp add: evs_def load_count_def)
  from renderer_one_way[of initial_state example_host None visible_view evs s errs] run lc
  have c: "consistent example_host s" by blast
  define s1 where "s1 = initial_state\<lparr>PRODUCTS := example_rows, grid := Some (map (createCard example_host) example_rows),
      rendered := 2, footerEl := Some (footer_text example_host 2 2), initialized := True,
      scroll_listener := True\<rparr>"
  have "renderMore example_host (initial_state\<lparr>PRODUCTS := example_rows, grid := Some [],
          footerEl := Some (footer_found visible_view)\<rparr>)
        = Inr (initial_state\<lparr>PRODUCTS := example_rows, grid := Some (map (createCard example_host) example_rows),
          rendered := 2, footerEl := Some (footer_text example_host 2 2)\<rparr>)"
    by (subst renderMore_step[where g = "[]"])
      (simp_all add: initial_state_def example_rows_def numeral_2_eq_2)
  then have h1: "handle example_host (Load (Response True example_catalog) (Some visible_view)) initial_state = Inr s1"
    by (simp add: handle_def on_load_def example_load visible_view_def initDataView_def s1_def)
      (simp add: initial_state_def)
  have "run example_host evs initial_state = (s1\<lparr>timers := 0\<rparr>, [])"
    unfolding evs_def
    by (simp add: h1) (simp add: handle_def navigate_def initDataView_latched s1_def initial_state_def)
  with run have "s = s1\<lparr>timers := 0\<rparr>" by simp
  then have "initialized s \<and> rendered s = 2" by (simp add: s1_def)
  moreover from c this have "grid s = Some (map (createCard example_host) (take 2 (PRODUCTS s)))"
    by (simp add: consistent_def)
  moreover have "PRODUCTS s = example_rows"
    using \<open>s = s1\<lparr>timers := 0\<rparr>\<close> by (simp add: s1_def)
  ultimately show ?thesis
    using run by (auto simp: evs_def example_rows_def)
qed

section \<open>A failed fetch\<close>

text \<open>
  C7. When the fetch is rejected or its response is not a success, \<^verbatim>\<open>loadProducts\<close>
  throws, and the \<^verbatim>\<open>load\<close> handler returns normally with the empty record sequence
  stored and the error logged. Over every run whose loads all fail, no handler throws, no
  record is stored, the cursor stays at 0, the grid is undefined or empty, the footer is
  undefined or still has the text it had when \<^verbatim>\<open>initDataView\<close> found or created it, and
  the console holds one entry per load.
\<close>

theorem failed_fetch_renders_nothing:
  "(failed res \<longrightarrow>
      (\<exists>err. loadProducts P res = Inl err
           \<and> (\<exists>s. on_load P res dv st = Inr s \<and> PRODUCTS s = [] \<and> console s = console st @ [err])))
   \<and> (list_all failing evs \<and> run P evs initial_state = (st', errs) \<longrightarrow>
        errs = [] \<and> PRODUCTS st' = [] \<and> rendered st' = 0
        \<and> (grid st' = None \<or> grid st' = Some [])
        \<and> (footerEl st' = None
            \<or> (\<exists>v \<in> set (concat (map views evs)). footerEl st' = Some (footer_found v)))
        \<and> length (console st') = load_count evs)"
proof (intro conjI impI)
  assume "failed res"
  then obtain err where err: "loadProducts P res = Inl err"
    using loadProducts_failed by blast
  from on_load_failed[OF err, of dv st] err
  show "\<exists>err. loadProducts P res = Inl err
           \<and> (\<exists>s. on_load P res dv st = Inr s \<and> PRODUCTS s = [] \<and> console s = console st @ [err])"
    by blast
next
  assume h: "list_all failing evs \<and> run P evs initial_state = (st', errs)"
  have "PRODUCTS initial_state = []" by (simp add: initial_state_def)
  from run_failing[OF this, of evs P st' errs] h
  have "errs = [] \<and> PRODUCTS st' = [] \<and> rendered st' = rendered initial_state
         \<and> (grid st' = grid initial_state \<or> grid st' = Some [])
         \<and> (footerEl st' = footerEl initial_state
             \<or> (\<exists>v \<in> set (concat (map views evs)). footerEl st' = Some (footer_found v)))
         \<and> length (console st') = length (console initial_state) + load_count evs"
    by blast
  then show "errs = []" "PRODUCTS st' = []" "rendered st' = 0" "grid st' = None \<or> grid st' = Some []"
    "footerEl st' = None \<or> (\<exists>v \<in> set (concat (map views evs)). footerEl st' = Some (footer_found v))"
    "length (console st') = load_count evs"
    by (simp_all add: initial_state_def)
qed

text \<open>
  The theorem on a run with a response that is not a success: the view is initialised by
  the navigation, scrolls follow, and the page shows an empty grid and an empty footer.
\<close>

theorem failed_fetch_renders_nothing_witness:
  "run example_host
     [Load (Response False []) (Some hidden_view), Navigate (str ''data''), Timeout (Some visible_view),
      Scroll (Some visible_view) True] initial_state =
     (initial_state\<lparr>scroll_listener := True, grid := Some [], footerEl := Some [], initialized := True,
                    console := [Error (str ''Failed to load gemini_products.csv'')]\<rparr>, [])"
proof -
  define evs where "evs = [Load (Response False []) (Some hidden_view), Navigate (str ''data''),
      Timeout (Some visible_view), Scroll (Some visible_view) True]"
  obtain s errs where run: "run example_host evs initial_state = (s, errs)"
    by (cases "run example_host evs initial_state") auto
  have "list_all failing evs" by (simp add: evs_def)
  with failed_fetch_renders_nothing[of "Response False []" example_host None initial_state evs s errs] run
  have "errs = []" and p: "PRODUCTS s = []" by blast+
  have ld: "handle example_host (Load (Response False []) (Some hidden_view)) initial_state =
      Inr (initial_state\<lparr>console := [Error (str ''Failed to load gemini_products.csv'')], scroll_listener := True\<rparr>)"
    by (simp add: handle_def on_load_def loadProducts_def hidden_view_def initial_state_def)
  have "fst (run example_host evs initial_state) =
      initial_state\<lparr>scroll_listener := True, grid := Some [], footerEl := Some [], initialized := True,
                    console := [Error (str ''Failed to load gemini_products.csv'')]\<rparr>"
    unfolding evs_def
    by (simp add: ld)
      (simp add: handle_def navigate_def initDataView_def onScroll_def renderMore_empty visible_view_def
        footer_found_def initial_state_def)
  with run \<open>errs = []\<close> show ?thesis
    by (simp add: evs_def)
qed

section \<open>Price formatting: two decimal digits\<close>

text \<open>
  C5 fails on the code. \<^verbatim>\<open>toFixed\<close> writes two decimal digits only while the magnitude
  is below \<open>10\<^sup>2\<^sup>1\<close>; from there on it returns the exponent notation of the number. The
  raw price \<^verbatim>\<open>1e21\<close> is a finite number, and \<^verbatim>\<open>formatPrice\<close> returns \<^verbatim>\<open>$1e+21\<close> for it,
  which has no decimal digits. Below \<open>10\<^sup>2\<^sup>1\<close> the claim holds
  (\<open>formatPrice_two_decimals\<close>, \<open>two_decimals_digits\<close>), and the specification's
  example is \<open>formatPrice_1234\<close>.
\<close>

theorem formatPrice_huge:
  "StringToNumber (stripped (str ''1e21'')) = Num (10 ^ 21) \<and> formatPrice (Some (str ''1e21'')) = str ''$1e+21''"
  by (simp add: stripped_1e21 Number_1e21 formatPrice_1e21)

end
